theory Spec2Isabelle
  imports Complex_Main
begin

section \<open>Ride sharing: geo utilities, entities and the ride service\<close>

text \<open>
  The Python sources \<^verbatim>\<open>utils.py\<close>, \<^verbatim>\<open>models.py\<close> and \<^verbatim>\<open>service.py\<close> (with the
  matching variant of \<^verbatim>\<open>1.1utils.py\<close>) are embedded as HOL functions.

  \<^item> A finite Python \<^verbatim>\<open>float\<close> is the real number it denotes; \<open>pyfloat\<close> adds the two
    infinities and NaN where they can occur.
  \<^item> The fare estimator uses only operations whose result IEEE 754 and Python fix exactly
    (\<^verbatim>\<open>+\<close>, \<^verbatim>\<open>*\<close>, \<^verbatim>\<open>/\<close>, \<^verbatim>\<open>round\<close>, float literals); they are computed in double precision,
    rounding to nearest, ties to even.
  \<^item> The distance function calls the math library, whose results depend on the
    platform. Its float primitives are a parameter of the model, a \<open>machine\<close>, about which
    nothing is assumed.
  \<^item> Sums of money and of distances and the running mean of the rating, kept in the
    entities, are read without rounding; so is the division by the speed constant 0.5,
    which doubles its argument.
  \<^item> Python \<^verbatim>\<open>int\<close> counters are \<open>int\<close>.
  \<^item> Objects that are shared by reference (drivers, passengers, vehicles, requests,
    rides) live in a store indexed by addresses; a \<open>Location\<close> has no mutator and is a
    plain value.
  \<^item> Every \<^verbatim>\<open>raise\<close> is a value \<open>Inl e\<close>; an operation that mutates returns the store it
    leaves behind together with its result, also when it raises.
  \<^item> \<^verbatim>\<open>datetime.now()\<close> and \<^verbatim>\<open>uuid.uuid4()\<close> are inputs of the operation that calls
    them; \<^verbatim>\<open>print\<close> is not modelled.
\<close>

subsection \<open>Python floats\<close>

datatype error =
    ValueError
  | NoDriverFoundError
  | InvalidRequestError
  | ZeroDivisionError
  | AttributeError
  | TypeError

datatype pyfloat = Fin real | PInf | NInf | NaN

text \<open>Python's \<^verbatim>\<open><\<close> and \<^verbatim>\<open><=\<close> on floats; every comparison with NaN is false.\<close>

fun float_less :: "pyfloat \<Rightarrow> pyfloat \<Rightarrow> bool" where
  "float_less (Fin x) (Fin y) = (x < y)"
| "float_less (Fin x) PInf = True"
| "float_less NInf (Fin y) = True"
| "float_less NInf PInf = True"
| "float_less x y = False"

fun float_le :: "pyfloat \<Rightarrow> pyfloat \<Rightarrow> bool" where
  "float_le (Fin x) (Fin y) = (x \<le> y)"
| "float_le NaN y = False"
| "float_le x NaN = False"
| "float_le x PInf = True"
| "float_le NInf y = True"
| "float_le x y = False"

text \<open>Rounding to the nearest integer, a tie going to the even one.\<close>

definition round_half_even :: "real \<Rightarrow> int" where
  "round_half_even y =
     (let f = \<lfloor>y\<rfloor>; r = y - of_int f
      in if r < 1 / 2 then f
         else if 1 / 2 < r then f + 1
         else if even f then f else f + 1)"

text \<open>
  The double nearest to a real number: 53 significant bits, exponents from -1022 (below
  which the spacing stays \<open>2 ^ (- 1074)\<close>), a tie going to the even significand, and an
  infinity when the rounded value reaches \<open>2 ^ 1024\<close>.
\<close>

definition pow2 :: "int \<Rightarrow> real" where
  "pow2 e = (if 0 \<le> e then 2 ^ nat e else 1 / 2 ^ nat (- e))"

definition binade_of :: "real \<Rightarrow> int" where
  "binade_of x = max \<lfloor>log 2 \<bar>x\<bar>\<rfloor> (- 1022)"

definition ulp :: "real \<Rightarrow> real" where
  "ulp x = pow2 (binade_of x - 52)"

definition round_to_ulp :: "real \<Rightarrow> real" where
  "round_to_ulp x = of_int (round_half_even (x / ulp x)) * ulp x"

definition nearest_double :: "real \<Rightarrow> pyfloat" where
  "nearest_double x =
     (if x = 0 then Fin 0
      else
        let r = round_to_ulp x
        in if pow2 1024 \<le> r then PInf
           else if r \<le> - pow2 1024 then NInf
           else Fin r)"

text \<open>
  Float addition, multiplication and Python's true division, which raises on a zero
  divisor, and \<^verbatim>\<open>round(x, ndigits)\<close>, which rounds the exact value of the float to
  \<open>ndigits\<close> decimals and returns the double nearest to the result.
\<close>

fun fadd :: "pyfloat \<Rightarrow> pyfloat \<Rightarrow> pyfloat" where
  "fadd (Fin x) (Fin y) = nearest_double (x + y)"
| "fadd NaN y = NaN"
| "fadd x NaN = NaN"
| "fadd PInf NInf = NaN"
| "fadd NInf PInf = NaN"
| "fadd PInf y = PInf"
| "fadd x PInf = PInf"
| "fadd NInf y = NInf"
| "fadd x NInf = NInf"

fun fmul :: "pyfloat \<Rightarrow> pyfloat \<Rightarrow> pyfloat" where
  "fmul (Fin x) (Fin y) = nearest_double (x * y)"
| "fmul NaN y = NaN"
| "fmul x NaN = NaN"
| "fmul (Fin x) PInf = (if 0 < x then PInf else if x < 0 then NInf else NaN)"
| "fmul (Fin x) NInf = (if 0 < x then NInf else if x < 0 then PInf else NaN)"
| "fmul PInf (Fin y) = (if 0 < y then PInf else if y < 0 then NInf else NaN)"
| "fmul NInf (Fin y) = (if 0 < y then NInf else if y < 0 then PInf else NaN)"
| "fmul PInf PInf = PInf"
| "fmul NInf NInf = PInf"
| "fmul PInf NInf = NInf"
| "fmul NInf PInf = NInf"

fun py_truediv :: "pyfloat \<Rightarrow> pyfloat \<Rightarrow> error + pyfloat" where
  "py_truediv x (Fin y) =
     (if y = 0 then Inl ZeroDivisionError
      else case x of
             Fin a \<Rightarrow> Inr (nearest_double (a / y))
           | PInf \<Rightarrow> Inr (if 0 < y then PInf else NInf)
           | NInf \<Rightarrow> Inr (if 0 < y then NInf else PInf)
           | NaN \<Rightarrow> Inr NaN)"
| "py_truediv (Fin a) PInf = Inr (Fin 0)"
| "py_truediv (Fin a) NInf = Inr (Fin 0)"
| "py_truediv x y = Inr NaN"

fun py_round :: "pyfloat \<Rightarrow> nat \<Rightarrow> pyfloat" where
  "py_round (Fin x) ndigits =
     nearest_double (of_int (round_half_even (x * 10 ^ ndigits)) / 10 ^ ndigits)"
| "py_round x ndigits = x"

text \<open>
  Sums of floats read without rounding (Python's \<^verbatim>\<open>sum\<close> over the fares): exact on finite
  values, with the infinities and NaN of float addition.
\<close>

instantiation pyfloat :: comm_monoid_add
begin

definition zero_pyfloat :: pyfloat where
  "zero_pyfloat = Fin 0"

fun plus_pyfloat :: "pyfloat \<Rightarrow> pyfloat \<Rightarrow> pyfloat" where
  "plus_pyfloat (Fin x) (Fin y) = Fin (x + y)"
| "plus_pyfloat NaN y = NaN"
| "plus_pyfloat x NaN = NaN"
| "plus_pyfloat PInf NInf = NaN"
| "plus_pyfloat NInf PInf = NaN"
| "plus_pyfloat PInf y = PInf"
| "plus_pyfloat x PInf = PInf"
| "plus_pyfloat NInf y = NInf"
| "plus_pyfloat x NInf = NInf"

instance
proof
  fix u v w :: pyfloat
  show "0 + u = u"
    unfolding zero_pyfloat_def by (cases u) simp_all
  show "u + v = v + u"
    by (cases u; cases v) simp_all
  show "u + v + w = u + (v + w)"
    by (cases u; cases v; cases w) simp_all
qed

end

subsection \<open>utils.py\<close>

definition EARTH_RADIUS_KM :: real where
  "EARTH_RADIUS_KM = 6371"

record Location =
  latitude :: real
  longitude :: real

text \<open>\<^verbatim>\<open>Location.__init__\<close>: the only way the program builds a location.\<close>

definition Location_init :: "real \<Rightarrow> real \<Rightarrow> error + Location" where
  "Location_init lat lon =
     (if \<not> (- 90 \<le> lat \<and> lat \<le> 90 \<and> - 180 \<le> lon \<and> lon \<le> 180)
      then Inl ValueError
      else Inr \<lparr>latitude = lat, longitude = lon\<rparr>)"

text \<open>
  The float primitives \<^verbatim>\<open>calculate_distance\<close> calls: the functions of the math module
  and the arithmetic operators, each with the finite float it returns. \<open>fl_sqrt\<close> is
  called on arguments that are not negative only.
\<close>

record machine =
  fl_radians :: "real \<Rightarrow> real"
  fl_sin :: "real \<Rightarrow> real"
  fl_cos :: "real \<Rightarrow> real"
  fl_sqrt :: "real \<Rightarrow> real"
  fl_atan2 :: "real \<Rightarrow> real \<Rightarrow> real"
  fl_pow :: "real \<Rightarrow> nat \<Rightarrow> real"
  fl_add :: "real \<Rightarrow> real \<Rightarrow> real"
  fl_sub :: "real \<Rightarrow> real \<Rightarrow> real"
  fl_mul :: "real \<Rightarrow> real \<Rightarrow> real"
  fl_div :: "real \<Rightarrow> real \<Rightarrow> real"

text \<open>The haversine term \<^verbatim>\<open>a\<close> of \<^verbatim>\<open>calculate_distance\<close>.\<close>

definition haversine_a :: "machine \<Rightarrow> Location \<Rightarrow> Location \<Rightarrow> real" where
  "haversine_a M loc1 loc2 =
     (let lat1 = fl_radians M (latitude loc1); lon1 = fl_radians M (longitude loc1);
          lat2 = fl_radians M (latitude loc2); lon2 = fl_radians M (longitude loc2);
          dlon = fl_sub M lon2 lon1;
          dlat = fl_sub M lat2 lat1
      in fl_add M (fl_pow M (fl_sin M (fl_div M dlat 2)) 2)
           (fl_mul M (fl_mul M (fl_cos M lat1) (fl_cos M lat2))
              (fl_pow M (fl_sin M (fl_div M dlon 2)) 2)))"

text \<open>
  \<^verbatim>\<open>calculate_distance\<close>. \<^verbatim>\<open>math.sqrt\<close> raises \<^verbatim>\<open>ValueError\<close> on a negative argument; the
  arguments of \<^verbatim>\<open>atan2\<close> are evaluated left to right.
\<close>

definition calculate_distance :: "machine \<Rightarrow> Location \<Rightarrow> Location \<Rightarrow> error + real" where
  "calculate_distance M loc1 loc2 =
     (let a = haversine_a M loc1 loc2
      in if a < 0 then Inl ValueError
         else
           let root_a = fl_sqrt M a;
               rest = fl_sub M 1 a
           in if rest < 0 then Inl ValueError
              else
                let c = fl_mul M 2 (fl_atan2 M root_a (fl_sqrt M rest))
                in Inr (fl_mul M EARTH_RADIUS_KM c))"

text \<open>
  The mathematical functions, and the machine that computes with them and does not round.
  It serves to build example states and to say what the distance would be without
  rounding.
\<close>

definition radians :: "real \<Rightarrow> real" where
  "radians x = x * pi / 180"

definition atan2 :: "real \<Rightarrow> real \<Rightarrow> real" where
  "atan2 y x =
     (if 0 < x then arctan (y / x)
      else if x < 0 then (if 0 \<le> y then arctan (y / x) + pi else arctan (y / x) - pi)
      else if 0 < y then pi / 2
      else if y < 0 then - (pi / 2)
      else 0)"

definition exact_machine :: machine where
  "exact_machine =
     \<lparr>fl_radians = radians, fl_sin = sin, fl_cos = cos, fl_sqrt = sqrt, fl_atan2 = atan2,
      fl_pow = (\<lambda>x n. x ^ n), fl_add = (\<lambda>x y. x + y), fl_sub = (\<lambda>x y. x - y),
      fl_mul = (\<lambda>x y. x * y), fl_div = (\<lambda>x y. x / y)\<rparr>"

definition haversine_km :: "Location \<Rightarrow> Location \<Rightarrow> real" where
  "haversine_km loc1 loc2 =
     EARTH_RADIUS_KM
       * (2 * atan2 (sqrt (haversine_a exact_machine loc1 loc2))
                (sqrt (1 - haversine_a exact_machine loc1 loc2)))"

subsection \<open>models.py\<close>

text \<open>
  Each class is a record; \<open>Driver\<close> and \<open>Passenger\<close> extend \<open>Person\<close> as the classes do.
  A field holding an object holds its address. \<^verbatim>\<open>datetime\<close> values are microsecond
  counts. \<^verbatim>\<open>Ride._driver\<close> holds whatever \<^verbatim>\<open>_find_nearest_driver\<close> returned, which
  Python allows to be \<^verbatim>\<open>None\<close>.
\<close>

record Vehicle =
  make' :: string
  model :: string
  license_plate :: string
  mileage :: real

record Person =
  person_id :: string
  name :: string
  phone :: string
  current_location :: Location

record Driver = Person +
  vehicle :: nat
  is_available :: bool
  rating :: real
  driver_total_rides :: int
  earnings :: real

record Passenger = Person +
  passenger_total_rides :: int

record RideRequest =
  request_id :: string
  passenger :: nat
  pickup_loc :: Location
  dropoff_loc :: Location
  timestamp :: int
  request_status :: string

record Ride =
  ride_id :: string
  request :: nat
  driver :: "nat option"
  start_time :: int
  end_time :: "int option"
  fare :: pyfloat
  estimated_distance :: real
  ride_status :: string

text \<open>
  The program state: the four lists of the one \<^verbatim>\<open>RideService\<close> (\<open>drivers\<close>,
  \<open>passengers\<close>, \<open>requests\<close>, \<open>rides\<close>, holding addresses in insertion order), the
  object store per class, and the next free address per class.
\<close>

record State =
  drivers :: "nat list"
  passengers :: "nat list"
  requests :: "nat list"
  rides :: "nat list"
  driver_heap :: "nat \<Rightarrow> Driver"
  passenger_heap :: "nat \<Rightarrow> Passenger"
  vehicle_heap :: "nat \<Rightarrow> Vehicle"
  request_heap :: "nat \<Rightarrow> RideRequest"
  ride_heap :: "nat \<Rightarrow> Ride"
  next_driver :: nat
  next_passenger :: nat
  next_vehicle :: nat
  next_request :: nat
  next_ride :: nat

text \<open>Constructors: allocate at the next free address and return it.\<close>

definition Vehicle_init :: "State \<Rightarrow> string \<Rightarrow> string \<Rightarrow> string \<Rightarrow> nat \<times> State" where
  "Vehicle_init s mk mdl plate =
     (let v = next_vehicle s
      in (v, s\<lparr>vehicle_heap := (vehicle_heap s)
                  (v := \<lparr>make' = mk, model = mdl, license_plate = plate, mileage = 0\<rparr>),
               next_vehicle := Suc v\<rparr>))"

definition Driver_init ::
  "State \<Rightarrow> string \<Rightarrow> string \<Rightarrow> string \<Rightarrow> Location \<Rightarrow> nat \<Rightarrow> nat \<times> State" where
  "Driver_init s uid nm ph loc veh =
     (let d = next_driver s
      in (d, s\<lparr>driver_heap := (driver_heap s)
                  (d := \<lparr>person_id = uid, name = nm, phone = ph, current_location = loc,
                         vehicle = veh, is_available = True, rating = 5,
                         driver_total_rides = 0, earnings = 0\<rparr>),
               next_driver := Suc d\<rparr>))"

definition Passenger_init ::
  "State \<Rightarrow> string \<Rightarrow> string \<Rightarrow> string \<Rightarrow> Location \<Rightarrow> nat \<times> State" where
  "Passenger_init s uid nm ph loc =
     (let p = next_passenger s
      in (p, s\<lparr>passenger_heap := (passenger_heap s)
                  (p := \<lparr>person_id = uid, name = nm, phone = ph, current_location = loc,
                         passenger_total_rides = 0\<rparr>),
               next_passenger := Suc p\<rparr>))"

definition RideRequest_init ::
  "State \<Rightarrow> string \<Rightarrow> int \<Rightarrow> nat \<Rightarrow> Location \<Rightarrow> Location \<Rightarrow> nat \<times> State" where
  "RideRequest_init s uid now psg pickup dropoff =
     (let q = next_request s
      in (q, s\<lparr>request_heap := (request_heap s)
                  (q := \<lparr>request_id = uid, passenger = psg, pickup_loc = pickup,
                         dropoff_loc = dropoff, timestamp = now,
                         request_status = ''Pending''\<rparr>),
               next_request := Suc q\<rparr>))"

definition Ride_init ::
  "State \<Rightarrow> string \<Rightarrow> int \<Rightarrow> nat \<Rightarrow> nat option \<Rightarrow> pyfloat \<Rightarrow> real \<Rightarrow> nat \<times> State" where
  "Ride_init s uid now req drv fr est_dist =
     (let r = next_ride s
      in (r, s\<lparr>ride_heap := (ride_heap s)
                  (r := \<lparr>ride_id = uid, request = req, driver = drv, start_time = now,
                         end_time = None, fare = fr, estimated_distance = est_dist,
                         ride_status = ''In Progress''\<rparr>),
               next_ride := Suc r\<rparr>))"

text \<open>\<^verbatim>\<open>Person.update_location\<close>, called on a driver.\<close>

definition update_location :: "State \<Rightarrow> nat \<Rightarrow> Location \<Rightarrow> State" where
  "update_location s d new_location =
     s\<lparr>driver_heap := (driver_heap s)
          (d := (driver_heap s d)\<lparr>current_location := new_location\<rparr>)\<rparr>"

definition set_availability :: "State \<Rightarrow> nat \<Rightarrow> bool \<Rightarrow> State" where
  "set_availability s d status =
     s\<lparr>driver_heap := (driver_heap s)(d := (driver_heap s d)\<lparr>is_available := status\<rparr>)\<rparr>"

text \<open>
  \<^verbatim>\<open>Driver.complete_ride\<close>. The division by the incremented count raises
  \<^verbatim>\<open>ZeroDivisionError\<close> when that count is zero, after the count and the earnings were
  written.
\<close>

definition Driver_complete_ride :: "State \<Rightarrow> nat \<Rightarrow> real \<Rightarrow> real \<Rightarrow> (error + unit) \<times> State" where
  "Driver_complete_ride s d fr new_rating =
     (let s1 = s\<lparr>driver_heap := (driver_heap s)
                  (d := (driver_heap s d)
                     \<lparr>driver_total_rides := driver_total_rides (driver_heap s d) + 1\<rparr>)\<rparr>;
          s2 = s1\<lparr>driver_heap := (driver_heap s1)
                  (d := (driver_heap s1 d)\<lparr>earnings := earnings (driver_heap s1 d) + fr\<rparr>)\<rparr>;
          n = driver_total_rides (driver_heap s2 d)
      in if n = 0 then (Inl ZeroDivisionError, s2)
         else
           let s3 = s2\<lparr>driver_heap := (driver_heap s2)
                      (d := (driver_heap s2 d)
                         \<lparr>rating := (rating (driver_heap s2 d) * of_int (n - 1) + new_rating)
                                    / of_int n\<rparr>)\<rparr>
           in (Inr (), set_availability s3 d True))"

definition Passenger_complete_ride :: "State \<Rightarrow> nat \<Rightarrow> State" where
  "Passenger_complete_ride s p =
     s\<lparr>passenger_heap := (passenger_heap s)
          (p := (passenger_heap s p)
             \<lparr>passenger_total_rides := passenger_total_rides (passenger_heap s p) + 1\<rparr>)\<rparr>"

definition add_mileage :: "State \<Rightarrow> nat \<Rightarrow> real \<Rightarrow> State" where
  "add_mileage s v distance =
     s\<lparr>vehicle_heap := (vehicle_heap s)
          (v := (vehicle_heap s v)\<lparr>mileage := mileage (vehicle_heap s v) + distance\<rparr>)\<rparr>"

definition set_status :: "State \<Rightarrow> nat \<Rightarrow> string \<Rightarrow> State" where
  "set_status s q status =
     s\<lparr>request_heap := (request_heap s)(q := (request_heap s q)\<lparr>request_status := status\<rparr>)\<rparr>"

text \<open>
  \<^verbatim>\<open>Ride.complete\<close>: the six statements in order. A ride whose \<^verbatim>\<open>_driver\<close> is \<^verbatim>\<open>None\<close>
  raises \<^verbatim>\<open>AttributeError\<close> at the third, after the end time and the status were written.
\<close>

definition Ride_complete ::
  "State \<Rightarrow> nat \<Rightarrow> int \<Rightarrow> real \<Rightarrow> real \<Rightarrow> real \<Rightarrow> (error + unit) \<times> State" where
  "Ride_complete s r now actual_distance final_fare rtg =
     (let s1 = s\<lparr>ride_heap := (ride_heap s)(r := (ride_heap s r)\<lparr>end_time := Some now\<rparr>)\<rparr>;
          s2 = s1\<lparr>ride_heap := (ride_heap s1)
                  (r := (ride_heap s1 r)\<lparr>ride_status := ''Completed''\<rparr>)\<rparr>
      in case driver (ride_heap s2 r) of
           None \<Rightarrow> (Inl AttributeError, s2)
         | Some d \<Rightarrow>
             let s3 = update_location s2 d
                        (dropoff_loc (request_heap s2 (request (ride_heap s2 r))))
             in case Driver_complete_ride s3 d final_fare rtg of
                  (Inl e, s4) \<Rightarrow> (Inl e, s4)
                | (Inr u, s4) \<Rightarrow>
                    let s5 = add_mileage s4 (vehicle (driver_heap s4 d)) actual_distance;
                        s6 = Passenger_complete_ride s5
                               (passenger (request_heap s5 (request (ride_heap s5 r))))
                    in (Inr (), s6))"

subsection \<open>service.py\<close>

text \<open>A float literal is the double nearest to the decimal number written.\<close>

definition BASE_RATE :: pyfloat where "BASE_RATE = nearest_double 0.50"
definition TIME_RATE :: pyfloat where "TIME_RATE = nearest_double 0.20"
definition BASE_FARE :: pyfloat where "BASE_FARE = nearest_double 2.50"

text \<open>\<^verbatim>\<open>RideService.__init__\<close>; the loaded data is not used by the source.\<close>

definition RideService_init :: "State \<Rightarrow> State" where
  "RideService_init s = s\<lparr>drivers := [], passengers := [], requests := [], rides := []\<rparr>"

definition add_driver :: "State \<Rightarrow> nat \<Rightarrow> State" where
  "add_driver s d = s\<lparr>drivers := drivers s @ [d]\<rparr>"

definition add_passenger :: "State \<Rightarrow> nat \<Rightarrow> State" where
  "add_passenger s p = s\<lparr>passengers := passengers s @ [p]\<rparr>"

definition estimate_fare :: "real \<Rightarrow> error + pyfloat" where
  "estimate_fare distance_km =
     (case py_truediv (Fin distance_km) (Fin 30) of
        Inl e \<Rightarrow> Inl e
      | Inr t \<Rightarrow>
          let estimated_time_min = fmul t (Fin 60);
              fr = fadd (fadd BASE_FARE (fmul (Fin distance_km) BASE_RATE))
                     (fmul estimated_time_min TIME_RATE)
          in Inr (py_round fr 2))"

text \<open>The \<^verbatim>\<open>for\<close> loop of \<^verbatim>\<open>_find_nearest_driver\<close> over the available drivers.\<close>

fun nearest_loop ::
  "machine \<Rightarrow> State \<Rightarrow> Location \<Rightarrow> nat list \<Rightarrow> nat option \<Rightarrow> pyfloat
     \<Rightarrow> error + (nat option \<times> pyfloat)" where
  "nearest_loop M s pickup [] nearest_driver min_distance = Inr (nearest_driver, min_distance)"
| "nearest_loop M s pickup (d # rest) nearest_driver min_distance =
     (case calculate_distance M (current_location (driver_heap s d)) pickup of
        Inl e \<Rightarrow> Inl e
      | Inr distance \<Rightarrow>
          if float_less (Fin distance) min_distance
          then nearest_loop M s pickup rest (Some d) (Fin distance)
          else nearest_loop M s pickup rest nearest_driver min_distance)"

definition find_nearest_driver ::
  "machine \<Rightarrow> State \<Rightarrow> Location \<Rightarrow> error + (nat option \<times> pyfloat)" where
  "find_nearest_driver M s pickup =
     (let available_drivers = filter (\<lambda>d. is_available (driver_heap s d)) (drivers s)
      in if available_drivers = [] then Inl NoDriverFoundError
         else nearest_loop M s pickup available_drivers None PInf)"

text \<open>\<^verbatim>\<open>_optimized_driver_matching\<close> of \<^verbatim>\<open>1.1utils.py\<close> and its loop.\<close>

definition AVG_SPEED_KM_PER_MIN :: real where
  "AVG_SPEED_KM_PER_MIN = 0.5"

fun matching_loop ::
  "machine \<Rightarrow> State \<Rightarrow> Location \<Rightarrow> nat list \<Rightarrow> nat option \<Rightarrow> pyfloat
     \<Rightarrow> error + (nat option \<times> pyfloat)" where
  "matching_loop M s pickup [] best_driver min_arrival_time =
     Inr (best_driver, min_arrival_time)"
| "matching_loop M s pickup (d # rest) best_driver min_arrival_time =
     (case calculate_distance M (current_location (driver_heap s d)) pickup of
        Inl e \<Rightarrow> Inl e
      | Inr driver_to_pickup_dist \<Rightarrow>
          let estimated_arrival_time_min = driver_to_pickup_dist / AVG_SPEED_KM_PER_MIN
          in if float_less (Fin estimated_arrival_time_min) min_arrival_time
             then matching_loop M s pickup rest (Some d) (Fin estimated_arrival_time_min)
             else matching_loop M s pickup rest best_driver min_arrival_time)"

definition optimized_driver_matching ::
  "machine \<Rightarrow> State \<Rightarrow> nat \<Rightarrow> error + (nat option \<times> pyfloat)" where
  "optimized_driver_matching M s req =
     (let available_drivers = filter (\<lambda>d. is_available (driver_heap s d)) (drivers s);
          pickup = pickup_loc (request_heap s req)
      in if available_drivers = [] then Inl NoDriverFoundError
         else case matching_loop M s pickup available_drivers None PInf of
                Inl e \<Rightarrow> Inl e
              | Inr (best_driver, min_arrival_time) \<Rightarrow>
                  (case best_driver of
                     None \<Rightarrow> Inl AttributeError
                   | Some b \<Rightarrow>
                       (case calculate_distance M (current_location (driver_heap s b)) pickup of
                          Inl e \<Rightarrow> Inl e
                        | Inr driver_to_pickup_dist \<Rightarrow>
                            Inr (best_driver, Fin driver_to_pickup_dist))))"

text \<open>
  The arrival time that belongs to a least distance: the value \<^verbatim>\<open>min_arrival_time\<close> holds
  when \<^verbatim>\<open>min_distance\<close> holds the argument.
\<close>

fun arrival_time :: "pyfloat \<Rightarrow> pyfloat" where
  "arrival_time (Fin x) = Fin (x / AVG_SPEED_KM_PER_MIN)"
| "arrival_time x = x"

definition request_ride ::
  "State \<Rightarrow> string \<Rightarrow> int \<Rightarrow> nat \<Rightarrow> Location \<Rightarrow> Location \<Rightarrow> (error + nat) \<times> State" where
  "request_ride s uid now psg pickup dropoff =
     (if latitude pickup = latitude dropoff \<and> longitude pickup = longitude dropoff
      then (Inl InvalidRequestError, s)
      else let (req, s1) = RideRequest_init s uid now psg pickup dropoff;
               s2 = s1\<lparr>requests := requests s1 @ [req]\<rparr>
           in (Inr req, s2))"

text \<open>
  The steps of \<^verbatim>\<open>assign_ride\<close> after the driver search, shared by the two versions of
  the method. With no driver returned, \<^verbatim>\<open>nearest_driver.set_availability\<close> raises
  \<^verbatim>\<open>AttributeError\<close>, after the ride was appended.
\<close>

definition start_ride ::
  "machine \<Rightarrow> State \<Rightarrow> string \<Rightarrow> int \<Rightarrow> nat \<Rightarrow> nat option \<Rightarrow> (error + nat) \<times> State" where
  "start_ride M s uid now req nearest_driver =
     (case calculate_distance M (pickup_loc (request_heap s req))
             (dropoff_loc (request_heap s req)) of
        Inl e \<Rightarrow> (Inl e, s)
      | Inr ride_distance \<Rightarrow>
          (case estimate_fare ride_distance of
             Inl e \<Rightarrow> (Inl e, s)
           | Inr fr \<Rightarrow>
               let (new_ride, s1) = Ride_init s uid now req nearest_driver fr ride_distance;
                   s2 = s1\<lparr>rides := rides s1 @ [new_ride]\<rparr>
               in case nearest_driver of
                    None \<Rightarrow> (Inl AttributeError, s2)
                  | Some d \<Rightarrow>
                      let s3 = set_availability s2 d False;
                          s4 = set_status s3 req ''Assigned''
                      in (Inr new_ride, s4)))"

text \<open>\<^verbatim>\<open>assign_ride\<close> of \<^verbatim>\<open>service.py\<close>.\<close>

definition assign_ride ::
  "machine \<Rightarrow> State \<Rightarrow> string \<Rightarrow> int \<Rightarrow> nat \<Rightarrow> (error + nat) \<times> State" where
  "assign_ride M s uid now req =
     (case find_nearest_driver M s (pickup_loc (request_heap s req)) of
        Inl e \<Rightarrow> (Inl e, s)
      | Inr (nearest_driver, driver_distance) \<Rightarrow> start_ride M s uid now req nearest_driver)"

text \<open>\<^verbatim>\<open>assign_ride\<close> of \<^verbatim>\<open>1.1utils.py\<close>, which catches the error only to raise it again.\<close>

definition assign_ride_optimized ::
  "machine \<Rightarrow> State \<Rightarrow> string \<Rightarrow> int \<Rightarrow> nat \<Rightarrow> (error + nat) \<times> State" where
  "assign_ride_optimized M s uid now req =
     (case optimized_driver_matching M s req of
        Inl e \<Rightarrow> (Inl e, s)
      | Inr (nearest_driver, driver_distance) \<Rightarrow> start_ride M s uid now req nearest_driver)"

definition complete_ride ::
  "State \<Rightarrow> int \<Rightarrow> nat \<Rightarrow> real \<Rightarrow> real \<Rightarrow> real \<Rightarrow> (error + unit) \<times> State" where
  "complete_ride s now ride rtg actual_distance final_fare =
     Ride_complete s ride now actual_distance final_fare rtg"

text \<open>
  \<^verbatim>\<open>generate_simple_analytics\<close>: the three values it prints. A completed ride without an
  end time makes the subtraction raise \<^verbatim>\<open>TypeError\<close>. \<^verbatim>\<open>timedelta / int\<close> rounds to the
  nearest microsecond, a tie going to the even one.
\<close>

definition completed_rides :: "State \<Rightarrow> nat list" where
  "completed_rides s = filter (\<lambda>r. ride_status (ride_heap s r) = ''Completed'') (rides s)"

definition total_fare :: "State \<Rightarrow> pyfloat" where
  "total_fare s = sum_list (map (\<lambda>r. fare (ride_heap s r)) (completed_rides s))"

fun total_time :: "State \<Rightarrow> nat list \<Rightarrow> int \<Rightarrow> error + int" where
  "total_time s [] acc = Inr acc"
| "total_time s (r # rs) acc =
     (case end_time (ride_heap s r) of
        None \<Rightarrow> Inl TypeError
      | Some e \<Rightarrow> total_time s rs (acc + (e - start_time (ride_heap s r))))"

definition generate_simple_analytics :: "State \<Rightarrow> error + (nat \<times> pyfloat \<times> int)" where
  "generate_simple_analytics s =
     (let total_trips = length (completed_rides s)
      in if total_trips > 0
         then case total_time s (completed_rides s) 0 of
                Inl e \<Rightarrow> Inl e
              | Inr t \<Rightarrow>
                  Inr (total_trips, total_fare s,
                       round_half_even (of_int t / of_int (int total_trips)))
         else Inr (total_trips, total_fare s, 0))"

text \<open>
  The fare formula in the words of the specification (section 4.3), computed without
  rounding errors and rounded to two decimals, to be compared with \<open>estimate_fare\<close>.
\<close>

definition fare_spec :: "real \<Rightarrow> real" where
  "fare_spec distance_km =
     (let estimated_minutes = (distance_km / 30) * 60;
          fr = 2.50 + distance_km * 0.50 + estimated_minutes * 0.20
      in of_int (round_half_even (fr * 10\<^sup>2)) / 10\<^sup>2)"

subsection \<open>Sequences of calls\<close>

text \<open>
  What a caller of the service can do, one call after the other: build vehicles, drivers
  and passengers, and call the public methods of \<^verbatim>\<open>RideService\<close>. A call that raises
  leaves the state it had reached, and the caller may go on (as \<^verbatim>\<open>main.py\<close> does after
  catching the error). A caller can pass to \<^verbatim>\<open>assign_ride\<close> only a request that exists.
\<close>

datatype call =
    NewVehicle string string string
  | NewDriver string string string Location nat
  | NewPassenger string string string Location
  | AddDriver nat
  | AddPassenger nat
  | RequestRide string int nat Location Location
  | AssignRide string int nat
  | CompleteRide int nat real real real

fun step :: "machine \<Rightarrow> State \<Rightarrow> call \<Rightarrow> State" where
  "step M s (NewVehicle mk mdl plate) = snd (Vehicle_init s mk mdl plate)"
| "step M s (NewDriver uid nm ph loc veh) = snd (Driver_init s uid nm ph loc veh)"
| "step M s (NewPassenger uid nm ph loc) = snd (Passenger_init s uid nm ph loc)"
| "step M s (AddDriver d) = add_driver s d"
| "step M s (AddPassenger p) = add_passenger s p"
| "step M s (RequestRide uid now psg pickup dropoff) =
     snd (request_ride s uid now psg pickup dropoff)"
| "step M s (AssignRide uid now req) = snd (assign_ride M s uid now req)"
| "step M s (CompleteRide now ride rtg actual_distance final_fare) =
     snd (complete_ride s now ride rtg actual_distance final_fare)"


fun run :: "machine \<Rightarrow> State \<Rightarrow> call list \<Rightarrow> State" where
  "run M s [] = s"
| "run M s (c # cs) = run M (step M s c) cs"




text \<open>The distance call of a driver search: from the driver's location to the pickup.\<close>

definition driver_distance :: "machine \<Rightarrow> State \<Rightarrow> Location \<Rightarrow> nat \<Rightarrow> error + real" where
  "driver_distance M s pickup d =
     calculate_distance M (current_location (driver_heap s d)) pickup"

subsection \<open>Example states\<close>

text \<open>
  A fleet of three drivers, one half way around the equator and two at the pickup point,
  with one pending request; the same after the request was assigned; and a service whose
  only driver is on a ride while a second request waits. They are built on the machine
  that does not round.
\<close>

definition origin :: Location where
  "origin = \<lparr>latitude = 0, longitude = 0\<rparr>"

definition antipode :: Location where
  "antipode = \<lparr>latitude = 0, longitude = 180\<rparr>"

definition blank_state :: State where
  "blank_state =
     \<lparr>drivers = [], passengers = [], requests = [], rides = [],
      driver_heap = (\<lambda>a. \<lparr>person_id = [], name = [], phone = [], current_location = origin,
                         vehicle = 0, is_available = False, rating = 5,
                         driver_total_rides = 0, earnings = 0\<rparr>),
      passenger_heap = (\<lambda>a. \<lparr>person_id = [], name = [], phone = [],
                         current_location = origin, passenger_total_rides = 0\<rparr>),
      vehicle_heap = (\<lambda>a. \<lparr>make' = [], model = [], license_plate = [], mileage = 0\<rparr>),
      request_heap = (\<lambda>a. \<lparr>request_id = [], passenger = 0, pickup_loc = origin,
                         dropoff_loc = antipode, timestamp = 0, request_status = []\<rparr>),
      ride_heap = (\<lambda>a. \<lparr>ride_id = [], request = 0, driver = None, start_time = 0,
                         end_time = None, fare = Fin 0, estimated_distance = 0,
                         ride_status = []\<rparr>),
      next_driver = 0, next_passenger = 0, next_vehicle = 0, next_request = 0,
      next_ride = 0\<rparr>"

definition fleet_calls :: "call list" where
  "fleet_calls =
     [NewVehicle ''Toyota'' ''Corolla'' ''34 ABC 123'',
      NewDriver ''d0'' ''Ahmet'' ''555-1000'' antipode 0,
      NewVehicle ''Renault'' ''Clio'' ''34 DEF 456'',
      NewDriver ''d1'' ''Buse'' ''555-2000'' origin 1,
      NewVehicle ''Fiat'' ''Egea'' ''34 GHI 789'',
      NewDriver ''d2'' ''Cem'' ''555-3000'' origin 2,
      AddDriver 0, AddDriver 1, AddDriver 2,
      NewPassenger ''p0'' ''Emirhan'' ''555-4000'' origin,
      AddPassenger 0,
      RequestRide ''q0'' 100 0 origin antipode]"

definition fleet_state :: State where
  "fleet_state = run exact_machine blank_state fleet_calls"

definition riding_state :: State where
  "riding_state = run exact_machine fleet_state [AssignRide ''r0'' 200 0]"

definition busy_calls :: "call list" where
  "busy_calls =
     [NewVehicle ''Toyota'' ''Corolla'' ''34 ABC 123'',
      NewDriver ''d0'' ''Ahmet'' ''555-1000'' origin 0,
      AddDriver 0,
      NewPassenger ''p0'' ''Emirhan'' ''555-4000'' origin,
      AddPassenger 0,
      RequestRide ''q0'' 100 0 origin antipode,
      AssignRide ''r0'' 200 0,
      RequestRide ''q1'' 300 0 antipode origin]"

definition busy_state :: State where
  "busy_state = run exact_machine blank_state busy_calls"

text \<open>
  What every state that calls of the service reach has in common: no driver has a
  negative ride count (the constructor writes 0 and only \<^verbatim>\<open>Driver.complete_ride\<close> adds
  to it), and every ride of the service has a driver.
\<close>

definition well_formed :: "State \<Rightarrow> bool" where
  "well_formed s \<longleftrightarrow>
     (\<forall>d. 0 \<le> driver_total_rides (driver_heap s d))
     \<and> (\<forall>r\<in>set (rides s). driver (ride_heap s r) \<noteq> None)"

section \<open>Results\<close>

subsection \<open>Double arithmetic\<close>

text \<open>
  Rounding to the nearest double is monotone and can be evaluated; the three constants
  of the fare estimator, and the fare of three quarters of a kilometre, step by step.
\<close>

lemma pow2_pos: "0 < pow2 e"
  by (simp add: pow2_def)

lemma pow2_powr: "pow2 e = 2 powr (of_int e)"
  by (simp add: pow2_def powr_int)

lemma pow2_add: "pow2 (a + b) = pow2 a * pow2 b"
  by (simp add: pow2_powr powr_add)

lemma pow2_mono: "a \<le> b \<Longrightarrow> pow2 a \<le> pow2 b"
  by (simp add: pow2_powr)

lemma binade: "0 < x \<Longrightarrow> pow2 e \<le> x \<Longrightarrow> x < pow2 (e + 1) \<Longrightarrow> \<lfloor>log 2 x\<rfloor> = e"
  using floor_log_eq_powr_iff [of x 2 e] by (simp add: pow2_powr)

lemma binade_bounds:
  "0 < x \<Longrightarrow> pow2 \<lfloor>log 2 x\<rfloor> \<le> x \<and> x < pow2 (\<lfloor>log 2 x\<rfloor> + 1)"
  using floor_log_eq_powr_iff [of x 2 "\<lfloor>log 2 x\<rfloor>"] by (simp add: pow2_powr)

lemma round_half_even_mono: "x \<le> y \<Longrightarrow> round_half_even x \<le> round_half_even y"
proof -
  assume xy: "x \<le> y"
  have fl: "\<lfloor>x\<rfloor> \<le> \<lfloor>y\<rfloor>" using xy by (rule floor_mono)
  have lo: "\<lfloor>y\<rfloor> \<le> round_half_even y"
    by (simp add: round_half_even_def Let_def)
  have hi: "round_half_even x \<le> \<lfloor>x\<rfloor> + 1"
    by (simp add: round_half_even_def Let_def)
  show ?thesis
  proof (cases "\<lfloor>x\<rfloor> = \<lfloor>y\<rfloor>")
    case True
    then have "x - of_int \<lfloor>x\<rfloor> \<le> y - of_int \<lfloor>y\<rfloor>" using xy by simp
    with True show ?thesis
      by (auto simp: round_half_even_def Let_def)
  next
    case False
    with fl have "\<lfloor>x\<rfloor> + 1 \<le> \<lfloor>y\<rfloor>" by simp
    with lo hi show ?thesis by linarith
  qed
qed

lemma round_half_even_of_int: "round_half_even (of_int k) = k"
  by (simp add: round_half_even_def Let_def)

lemma round_half_even_le: "y \<le> of_int k \<Longrightarrow> round_half_even y \<le> k"
  using round_half_even_mono [of y "of_int k"] by (simp add: round_half_even_of_int)

lemma round_half_even_ge: "of_int k \<le> y \<Longrightarrow> k \<le> round_half_even y"
  using round_half_even_mono [of "of_int k" y] by (simp add: round_half_even_of_int)

lemma binade_of_upper: "0 < x \<Longrightarrow> x < pow2 (binade_of x + 1)"
proof -
  assume x: "0 < x"
  have "x < pow2 (\<lfloor>log 2 x\<rfloor> + 1)" using binade_bounds [OF x] by simp
  also have "\<dots> \<le> pow2 (binade_of x + 1)"
    using x by (intro pow2_mono) (simp add: binade_of_def)
  finally show ?thesis .
qed

lemma binade_of_lower: "0 < x \<Longrightarrow> - 1022 < binade_of x \<Longrightarrow> pow2 (binade_of x) \<le> x"
proof -
  assume x: "0 < x" and b: "- 1022 < binade_of x"
  from b x have "binade_of x = \<lfloor>log 2 x\<rfloor>" by (simp add: binade_of_def max_def split: if_splits)
  with binade_bounds [OF x] show ?thesis by simp
qed

lemma binade_of_mono: "0 < x \<Longrightarrow> x \<le> y \<Longrightarrow> binade_of x \<le> binade_of y"
proof -
  assume x: "0 < x" and xy: "x \<le> y"
  then have "log 2 x \<le> log 2 y" by simp
  then have "\<lfloor>log 2 x\<rfloor> \<le> \<lfloor>log 2 y\<rfloor>" by (rule floor_mono)
  with x xy show ?thesis by (simp add: binade_of_def)
qed

lemma pow2_53: "pow2 (e + 1) = 2 ^ 53 * pow2 (e - 52)"
proof -
  have "e + 1 = 53 + (e - 52)" by simp
  then have "pow2 (e + 1) = pow2 (53 + (e - 52))" by (simp only:)
  also have "\<dots> = pow2 53 * pow2 (e - 52)" by (rule pow2_add)
  finally show ?thesis by (simp add: pow2_def)
qed

lemma pow2_52: "pow2 e = 2 ^ 52 * pow2 (e - 52)"
proof -
  have "e = 52 + (e - 52)" by simp
  then have "pow2 e = pow2 (52 + (e - 52))" by (simp only:)
  also have "\<dots> = pow2 52 * pow2 (e - 52)" by (rule pow2_add)
  finally show ?thesis by (simp add: pow2_def)
qed

lemma round_to_ulp_nonneg: "0 \<le> x \<Longrightarrow> 0 \<le> round_to_ulp x"
proof -
  assume "0 \<le> x"
  then have "of_int 0 \<le> x / ulp x" using pow2_pos [of "binade_of x - 52"] by (simp add: ulp_def)
  then have "0 \<le> round_half_even (x / ulp x)" by (rule round_half_even_ge)
  then show ?thesis using pow2_pos [of "binade_of x - 52"] by (simp add: round_to_ulp_def ulp_def)
qed

lemma round_to_ulp_upper: "0 < x \<Longrightarrow> round_to_ulp x \<le> pow2 (binade_of x + 1)"
proof -
  assume x: "0 < x"
  let ?q = "ulp x"
  have q: "0 < ?q" by (simp add: ulp_def pow2_pos)
  have "x < 2 ^ 53 * ?q"
    using binade_of_upper [OF x] unfolding ulp_def pow2_53 [of "binade_of x"] .
  then have "x / ?q \<le> of_int (2 ^ 53)" using q by (simp add: field_simps)
  then have "round_half_even (x / ?q) \<le> 2 ^ 53" by (rule round_half_even_le)
  then have "real_of_int (round_half_even (x / ?q)) \<le> 2 ^ 53"
    by (metis of_int_le_iff of_int_numeral of_int_power)
  then have "real_of_int (round_half_even (x / ?q)) * ?q \<le> 2 ^ 53 * ?q"
    using q by (intro mult_right_mono) simp_all
  then show ?thesis
    unfolding round_to_ulp_def ulp_def pow2_53 [of "binade_of x"] .
qed

lemma round_to_ulp_lower:
  "0 < x \<Longrightarrow> - 1022 < binade_of x \<Longrightarrow> pow2 (binade_of x) \<le> round_to_ulp x"
proof -
  assume x: "0 < x" and b: "- 1022 < binade_of x"
  let ?q = "ulp x"
  have q: "0 < ?q" by (simp add: ulp_def pow2_pos)
  have "2 ^ 52 * ?q \<le> x"
    using binade_of_lower [OF x b] unfolding ulp_def pow2_52 [of "binade_of x"] .
  then have "of_int (2 ^ 52) \<le> x / ?q" using q by (simp add: field_simps)
  then have "2 ^ 52 \<le> round_half_even (x / ?q)" by (rule round_half_even_ge)
  then have "2 ^ 52 \<le> real_of_int (round_half_even (x / ?q))"
    by (metis of_int_le_iff of_int_numeral of_int_power)
  then have "2 ^ 52 * ?q \<le> real_of_int (round_half_even (x / ?q)) * ?q"
    using q by (intro mult_right_mono) simp_all
  then show ?thesis
    unfolding round_to_ulp_def ulp_def pow2_52 [of "binade_of x"] .
qed

lemma round_to_ulp_mono: "0 < x \<Longrightarrow> x \<le> y \<Longrightarrow> round_to_ulp x \<le> round_to_ulp y"
proof -
  assume x: "0 < x" and xy: "x \<le> y"
  then have y: "0 < y" by simp
  have le: "binade_of x \<le> binade_of y" using x xy by (rule binade_of_mono)
  show ?thesis
  proof (cases "binade_of x = binade_of y")
    case True
    then have u: "ulp x = ulp y" by (simp add: ulp_def)
    have q: "0 < ulp y" by (simp add: ulp_def pow2_pos)
    from xy q have "x / ulp y \<le> y / ulp y" by (simp add: divide_right_mono)
    then have "round_half_even (x / ulp y) \<le> round_half_even (y / ulp y)"
      by (rule round_half_even_mono)
    then have "real_of_int (round_half_even (x / ulp y)) * ulp y
               \<le> real_of_int (round_half_even (y / ulp y)) * ulp y"
      using q by (intro mult_right_mono) simp_all
    then show ?thesis by (simp add: round_to_ulp_def u)
  next
    case False
    with le have lt: "binade_of x + 1 \<le> binade_of y" by simp
    have "- 1022 \<le> binade_of x" by (simp add: binade_of_def)
    with lt have b: "- 1022 < binade_of y" by simp
    have "round_to_ulp x \<le> pow2 (binade_of x + 1)" using x by (rule round_to_ulp_upper)
    also have "\<dots> \<le> pow2 (binade_of y)" using lt by (rule pow2_mono)
    also have "\<dots> \<le> round_to_ulp y" using y b by (rule round_to_ulp_lower)
    finally show ?thesis .
  qed
qed

lemma nearest_double_nonneg: "0 \<le> x \<Longrightarrow> float_le (Fin 0) (nearest_double x)"
  using round_to_ulp_nonneg [of x] pow2_pos [of 1024]
  by (auto simp: nearest_double_def Let_def)

lemma nearest_double_mono:
  assumes "0 \<le> x" and "x \<le> y"
  shows "float_le (nearest_double x) (nearest_double y)"
proof (cases "x = 0")
  case True
  with assms nearest_double_nonneg [of y] show ?thesis
    by (simp add: nearest_double_def)
next
  case False
  with assms have x: "0 < x" and y: "0 < y" by simp_all
  have m: "round_to_ulp x \<le> round_to_ulp y" using x assms(2) by (rule round_to_ulp_mono)
  have nx: "0 \<le> round_to_ulp x" using assms(1) by (rule round_to_ulp_nonneg)
  have p: "0 < pow2 1024" by (rule pow2_pos)
  from x y m nx p show ?thesis
    by (auto simp: nearest_double_def Let_def)
qed

lemma nearest_double_eval:
  assumes "pow2 e \<le> x" and "x < pow2 (e + 1)" and "- 1022 \<le> e" and "e \<le> 1022"
  shows "nearest_double x
         = Fin (of_int (round_half_even (x / pow2 (e - 52))) * pow2 (e - 52))"
proof -
  have x: "0 < x" using assms(1) pow2_pos [of e] by linarith
  have "\<lfloor>log 2 x\<rfloor> = e" using x assms(1,2) by (rule binade)
  with x assms(3) have b: "binade_of x = e" by (simp add: binade_of_def)
  have up: "round_to_ulp x \<le> pow2 (e + 1)" using round_to_ulp_upper [OF x] b by simp
  have "pow2 (e + 1) \<le> pow2 1023" using assms(4) by (intro pow2_mono) simp
  moreover have "pow2 1023 < pow2 1024" by (simp add: pow2_def)
  ultimately have lt: "round_to_ulp x < pow2 1024" using up by linarith
  have nn: "0 \<le> round_to_ulp x" using x by (intro round_to_ulp_nonneg) simp
  have p: "0 < pow2 1024" by (rule pow2_pos)
  from x lt nn p have "nearest_double x = Fin (round_to_ulp x)"
    by (simp add: nearest_double_def Let_def)
  then show ?thesis by (simp add: round_to_ulp_def ulp_def b)
qed

lemma nearest_double_small_int:
  assumes "pow2 e \<le> x" and "x < pow2 (e + 1)" and "- 1022 \<le> e" and "e \<le> 1022"
    and "x / pow2 (e - 52) = of_int k"
  shows "nearest_double x = Fin x"
proof -
  have p: "0 < pow2 (e - 52)" by (rule pow2_pos)
  from assms(5) p have "x = of_int k * pow2 (e - 52)" by (simp add: field_simps)
  with nearest_double_eval [OF assms(1-4)] assms(5) show ?thesis
    by (simp add: round_half_even_of_int)
qed

lemma BASE_RATE_value: "BASE_RATE = Fin (1 / 2)"
  unfolding BASE_RATE_def
  using nearest_double_small_int [of "- 1" "1 / 2" "2 ^ 52"]
  by (simp add: pow2_def)

lemma BASE_FARE_value: "BASE_FARE = Fin (5 / 2)"
  unfolding BASE_FARE_def
  using nearest_double_small_int [of 1 "5 / 2" "5 * 2 ^ 50"]
  by (simp add: pow2_def)

lemma TIME_RATE_value: "TIME_RATE = Fin (3602879701896397 / 18014398509481984)"
proof -
  have "round_half_even (1 / 5 / pow2 (- 3 - 52)) = 7205759403792794"
  proof -
    have "\<lfloor>(36028797018963968 :: real) / 5\<rfloor> = 7205759403792793" by linarith
    then show ?thesis by (simp add: round_half_even_def Let_def pow2_def)
  qed
  with nearest_double_eval [of "- 3" "1 / 5"] show ?thesis
    by (simp add: TIME_RATE_def pow2_def)
qed

lemma round_half_even_below:
  "of_int k \<le> y \<Longrightarrow> y < of_int k + 1 / 2 \<Longrightarrow> round_half_even y = k"
proof -
  assume a: "of_int k \<le> y" and b: "y < of_int k + 1 / 2"
  then have "\<lfloor>y\<rfloor> = k" by linarith
  with b show ?thesis by (simp add: round_half_even_def Let_def)
qed

lemma round_half_even_above:
  "of_int k + 1 / 2 < y \<Longrightarrow> y < of_int k + 1 \<Longrightarrow> round_half_even y = k + 1"
proof -
  assume a: "of_int k + 1 / 2 < y" and b: "y < of_int k + 1"
  then have "\<lfloor>y\<rfloor> = k" by linarith
  with a show ?thesis by (simp add: round_half_even_def Let_def)
qed

lemma round_half_even_tie:
  "y = of_int k + 1 / 2 \<Longrightarrow> round_half_even y = (if even k then k else k + 1)"
proof -
  assume a: "y = of_int k + 1 / 2"
  then have "\<lfloor>y\<rfloor> = k" by linarith
  with a show ?thesis by (simp add: round_half_even_def Let_def)
qed

lemma nearest_double_at:
  assumes "pow2 e \<le> x" and "x < pow2 (e + 1)" and "- 1022 \<le> e" and "e \<le> 1022"
    and "round_half_even (x / pow2 (e - 52)) = m"
  shows "nearest_double x = Fin (of_int m * pow2 (e - 52))"
  using nearest_double_eval [OF assms(1-4)] assms(5) by simp

lemma fare_step_1: "nearest_double (3 / 4 / 30) = Fin (7205759403792794 / 2 ^ 58)"
proof -
  have "round_half_even (3 / 4 / 30 / pow2 (- 6 - 52)) = 7205759403792793 + 1"
    by (rule round_half_even_above) (simp_all add: pow2_def)
  with nearest_double_at [of "- 6" "3 / 4 / 30" 7205759403792794] show ?thesis
    by (simp add: pow2_def)
qed

lemma fare_step_2: "nearest_double (7205759403792794 / 2 ^ 58 * 60) = Fin (3 / 2)"
proof -
  have "round_half_even (7205759403792794 / 2 ^ 58 * 60 / pow2 (0 - 52)) = 6755399441055744"
    by (rule round_half_even_below) (simp_all add: pow2_def)
  with nearest_double_at [of 0 "7205759403792794 / 2 ^ 58 * 60" 6755399441055744] show ?thesis
    by (simp add: pow2_def)
qed

lemma fare_step_3:
  "nearest_double (3 / 2 * (3602879701896397 / 18014398509481984))
     = Fin (5404319552844596 / 2 ^ 54)"
proof -
  have "round_half_even (3 / 2 * (3602879701896397 / 18014398509481984) / pow2 (- 2 - 52))
          = (if even (5404319552844595::int) then 5404319552844595 else 5404319552844595 + 1)"
    by (rule round_half_even_tie) (simp add: pow2_def)
  then have "round_half_even (3 / 2 * (3602879701896397 / 18014398509481984) / pow2 (- 2 - 52))
          = 5404319552844596"
    by simp
  with nearest_double_at [of "- 2" "3 / 2 * (3602879701896397 / 18014398509481984)"
      5404319552844596]
  show ?thesis
    by (simp add: pow2_def)
qed

lemma fare_step_4: "nearest_double (3 / 4 * (1 / 2)) = Fin (3 / 8)"
  using nearest_double_small_int [of "- 2" "3 / 4 * (1 / 2)" "3 * 2 ^ 51"]
  by (simp add: pow2_def)

lemma fare_step_5: "nearest_double (5 / 2 + 3 / 8) = Fin (23 / 8)"
  using nearest_double_small_int [of 1 "5 / 2 + 3 / 8" "23 * 2 ^ 48"]
  by (simp add: pow2_def)

lemma fare_step_6:
  "nearest_double (23 / 8 + 5404319552844596 / 2 ^ 54) = Fin (7149464408450662 / 2 ^ 51)"
proof -
  have "round_half_even ((23 / 8 + 5404319552844596 / 2 ^ 54) / pow2 (1 - 52))
          = (if even (7149464408450662::int) then 7149464408450662 else 7149464408450662 + 1)"
    by (rule round_half_even_tie) (simp add: pow2_def)
  then have "round_half_even ((23 / 8 + 5404319552844596 / 2 ^ 54) / pow2 (1 - 52))
          = 7149464408450662"
    by simp
  with nearest_double_at [of 1 "23 / 8 + 5404319552844596 / 2 ^ 54" 7149464408450662]
  show ?thesis
    by (simp add: pow2_def)
qed

lemma fare_step_7: "round_half_even (7149464408450662 / 2 ^ 51 * 10\<^sup>2) = 317"
  by (rule round_half_even_below) simp_all

lemma fare_step_8: "nearest_double (317 / 10\<^sup>2) = Fin (1784551352345559 / 562949953421312)"
proof -
  have "round_half_even (317 / 10\<^sup>2 / pow2 (1 - 52)) = 7138205409382236"
    by (rule round_half_even_below) (simp_all add: pow2_def)
  with nearest_double_at [of 1 "317 / 10\<^sup>2" 7138205409382236] show ?thesis
    by (simp add: pow2_def)
qed

lemma estimate_fare_075:
  "estimate_fare (3 / 4) = Inr (Fin (1784551352345559 / 562949953421312))"
proof -
  have "py_truediv (Fin (3 / 4)) (Fin 30) = Inr (nearest_double (3 / 4 / 30))"
    by simp
  then have t: "py_truediv (Fin (3 / 4)) (Fin 30) = Inr (Fin (7205759403792794 / 2 ^ 58))"
    by (simp only: fare_step_1)
  have em: "fmul (Fin (7205759403792794 / 2 ^ 58)) (Fin 60) = Fin (3 / 2)"
    by (simp only: fmul.simps fare_step_2)
  have tr: "fmul (Fin (3 / 2)) TIME_RATE = Fin (5404319552844596 / 2 ^ 54)"
    by (simp only: TIME_RATE_value fmul.simps fare_step_3)
  have dr: "fmul (Fin (3 / 4)) BASE_RATE = Fin (3 / 8)"
    by (simp only: BASE_RATE_value fmul.simps fare_step_4)
  have b1: "fadd BASE_FARE (Fin (3 / 8)) = Fin (23 / 8)"
    by (simp only: BASE_FARE_value fadd.simps fare_step_5)
  have b2: "fadd (Fin (23 / 8)) (Fin (5404319552844596 / 2 ^ 54))
              = Fin (7149464408450662 / 2 ^ 51)"
    by (simp only: fadd.simps fare_step_6)
  have r: "py_round (Fin (7149464408450662 / 2 ^ 51)) 2
             = Fin (1784551352345559 / 562949953421312)"
    by (simp only: py_round.simps fare_step_7 fare_step_8 of_int_numeral)
  show ?thesis
    unfolding estimate_fare_def
    by (simp only: t sum.case Let_def em tr dr b1 b2 r)
qed

lemma fare_spec_075: "fare_spec (3 / 4) = 318 / 100"
proof -
  have "round_half_even ((635 :: real) / 2) = (if even (317::int) then 317 else 317 + 1)"
    by (rule round_half_even_tie) simp
  then show ?thesis
    by (simp add: fare_spec_def Let_def)
qed

lemma nearest_double_not_NaN: "nearest_double x \<noteq> NaN"
  by (simp add: nearest_double_def Let_def)

lemma float_le_refl: "x \<noteq> NaN \<Longrightarrow> float_le x x"
  by (cases x) simp_all

lemma float_le_PInf: "x \<noteq> NaN \<Longrightarrow> float_le x PInf"
  by (cases x) simp_all

lemma float_le_trans: "float_le x y \<Longrightarrow> float_le y z \<Longrightarrow> float_le x z"
  by (cases x; cases y; cases z) simp_all

lemma fmul_const_mono:
  assumes "float_le (Fin 0) a" and "float_le a b" and "0 < c"
  shows "float_le (fmul a (Fin c)) (fmul b (Fin c)) \<and> float_le (Fin 0) (fmul a (Fin c))"
proof (cases a)
  case (Fin x)
  with assms(1) have x: "0 \<le> x" by simp
  then have xc: "0 \<le> x * c" using assms(3) by simp
  show ?thesis
  proof (cases b)
    case (Fin y)
    with \<open>a = Fin x\<close> assms(2) have "x \<le> y" by simp
    then have "x * c \<le> y * c" using assms(3) by simp
    with xc \<open>a = Fin x\<close> Fin show ?thesis
      by (simp add: nearest_double_mono nearest_double_nonneg)
  next
    case PInf
    with \<open>a = Fin x\<close> assms(3) xc show ?thesis
      by (simp add: nearest_double_nonneg float_le_PInf nearest_double_not_NaN)
  next
    case NInf
    with \<open>a = Fin x\<close> assms(2) show ?thesis by simp
  next
    case NaN
    with \<open>a = Fin x\<close> assms(2) show ?thesis by simp
  qed
next
  case PInf
  with assms show ?thesis by (cases b) simp_all
next
  case NInf
  with assms(1) show ?thesis by simp
next
  case NaN
  with assms(1) show ?thesis by simp
qed

lemma fadd_mono:
  assumes "float_le (Fin 0) a" and "float_le (Fin 0) b"
    and "float_le a a'" and "float_le b b'"
  shows "float_le (fadd a b) (fadd a' b') \<and> float_le (Fin 0) (fadd a b)"
proof -
  have nn: "float_le (Fin 0) a'" "float_le (Fin 0) b'"
    using assms float_le_trans by blast+
  have fin: "float_le (nearest_double (x + y)) (nearest_double (x' + y'))
             \<and> float_le (Fin 0) (nearest_double (x + y))"
    if "0 \<le> x" "0 \<le> y" "x \<le> x'" "y \<le> y'" for x y x' y' :: real
    using that by (simp add: nearest_double_mono nearest_double_nonneg)
  have top: "float_le (nearest_double z) PInf" for z
    by (simp add: float_le_PInf nearest_double_not_NaN)
  show ?thesis
    using assms nn fin top
    by (cases a; cases b; cases a'; cases b') (simp_all add: nearest_double_nonneg)
qed

lemma py_round_mono:
  assumes "float_le (Fin 0) a" and "float_le a b"
  shows "float_le (py_round a n) (py_round b n)"
proof -
  have fin: "float_le (py_round (Fin x) n) (py_round (Fin y) n)"
    if "0 \<le> x" "x \<le> y" for x y :: real
  proof -
    from that have "0 \<le> x * 10 ^ n" "x * 10 ^ n \<le> y * 10 ^ n" by simp_all
    then have "0 \<le> round_half_even (x * 10 ^ n)"
      "round_half_even (x * 10 ^ n) \<le> round_half_even (y * 10 ^ n)"
      using round_half_even_ge [of 0 "x * 10 ^ n"] round_half_even_mono by simp_all
    then have "0 \<le> real_of_int (round_half_even (x * 10 ^ n)) / 10 ^ n"
      "real_of_int (round_half_even (x * 10 ^ n)) / 10 ^ n
         \<le> real_of_int (round_half_even (y * 10 ^ n)) / 10 ^ n"
      by (simp_all add: divide_right_mono)
    then show ?thesis
      by (simp add: nearest_double_mono)
  qed
  have top: "float_le (py_round (Fin x) n) PInf" for x
    by (simp add: float_le_PInf nearest_double_not_NaN)
  show ?thesis
  proof (cases a)
    case (Fin x)
    with assms(1) have x: "0 \<le> x" by simp
    show ?thesis
    proof (cases b)
      case (Fin y)
      with \<open>a = Fin x\<close> assms(2) x fin show ?thesis by simp
    next
      case PInf
      with \<open>a = Fin x\<close> top [of x] show ?thesis by simp
    next
      case NInf
      with \<open>a = Fin x\<close> assms(2) show ?thesis by simp
    next
      case NaN
      with \<open>a = Fin x\<close> assms(2) show ?thesis by simp
    qed
  next
    case PInf
    with assms(2) show ?thesis by (cases b) simp_all
  next
    case NInf
    with assms(1) show ?thesis by simp
  next
    case NaN
    with assms(1) show ?thesis by simp
  qed
qed

lemma estimate_fare_value:
  "estimate_fare d =
     Inr (py_round
            (fadd (fadd BASE_FARE (fmul (Fin d) BASE_RATE))
               (fmul (fmul (nearest_double (d / 30)) (Fin 60)) TIME_RATE)) 2)"
  by (simp add: estimate_fare_def Let_def)

lemma estimate_fare_mono:
  assumes "0 \<le> d" and "d \<le> d'"
  shows "\<exists>f f'. estimate_fare d = Inr f \<and> estimate_fare d' = Inr f' \<and> float_le f f'"
proof -
  let ?t = "\<lambda>x. nearest_double (x / 30)"
  let ?m = "\<lambda>x. fmul (fmul (?t x) (Fin 60)) TIME_RATE"
  let ?k = "\<lambda>x. fadd BASE_FARE (fmul (Fin x) BASE_RATE)"
  have t0: "float_le (Fin 0) (?t d)" using assms(1) by (simp add: nearest_double_nonneg)
  have t1: "float_le (?t d) (?t d')" using assms by (simp add: nearest_double_mono)
  note a = fmul_const_mono [OF t0 t1, of 60]
  have m: "float_le (?m d) (?m d') \<and> float_le (Fin 0) (?m d)"
    unfolding TIME_RATE_value using a by (intro fmul_const_mono) simp_all
  have d0: "float_le (Fin 0) (Fin d)" "float_le (Fin d) (Fin d')" using assms by simp_all
  have r: "float_le (fmul (Fin d) BASE_RATE) (fmul (Fin d') BASE_RATE)
           \<and> float_le (Fin 0) (fmul (Fin d) BASE_RATE)"
    unfolding BASE_RATE_value using d0 by (intro fmul_const_mono) simp_all
  have k: "float_le (?k d) (?k d') \<and> float_le (Fin 0) (?k d)"
    using r by (intro fadd_mono) (simp_all add: BASE_FARE_value)
  have s: "float_le (fadd (?k d) (?m d)) (fadd (?k d') (?m d'))
           \<and> float_le (Fin 0) (fadd (?k d) (?m d))"
    using k m by (intro fadd_mono) simp_all
  then have "float_le (py_round (fadd (?k d) (?m d)) 2) (py_round (fadd (?k d') (?m d')) 2)"
    by (intro py_round_mono) simp_all
  then show ?thesis by (simp add: estimate_fare_value)
qed

lemma nearest_double_zero: "nearest_double 0 = Fin 0"
  by (simp add: nearest_double_def)

lemma nearest_double_five_halves: "nearest_double (5 / 2) = Fin (5 / 2)"
  using BASE_FARE_value by (simp add: BASE_FARE_def)

lemma estimate_fare_zero: "estimate_fare 0 = Inr (Fin (5 / 2))"
proof -
  have t: "fmul (fmul (nearest_double (0 / 30)) (Fin 60)) TIME_RATE = Fin 0"
    by (simp add: TIME_RATE_value nearest_double_zero)
  have k: "fadd BASE_FARE (fmul (Fin 0) BASE_RATE) = Fin (5 / 2)"
    by (simp add: BASE_FARE_value BASE_RATE_value nearest_double_zero
        nearest_double_five_halves)
  have s: "fadd (Fin (5 / 2)) (Fin 0) = Fin (5 / 2)"
    by (simp add: nearest_double_five_halves)
  have "round_half_even (5 / 2 * 10\<^sup>2 :: real) = 250"
    using round_half_even_of_int [of 250] by simp
  then have r: "py_round (Fin (5 / 2)) 2 = Fin (5 / 2)"
    by (simp add: nearest_double_five_halves)
  show ?thesis
    by (simp only: estimate_fare_value t k s r)
qed


subsection \<open>Fare estimator\<close>

lemma fare_short_1: "nearest_double (15 / 4096 / 30) = Fin (1 / 8192)"
  using nearest_double_small_int [of "- 13" "15 / 4096 / 30" "2 ^ 52"]
  by (simp add: pow2_def)

lemma fare_short_2: "nearest_double (1 / 8192 * 60) = Fin (15 / 2048)"
  using nearest_double_small_int [of "- 8" "1 / 8192 * 60" "15 * 2 ^ 49"]
  by (simp add: pow2_def)

lemma fare_short_3:
  "nearest_double (15 / 2048 * (3602879701896397 / 18014398509481984)) = Fin (3 / 2048)"
proof -
  have "round_half_even (15 / 2048 * (3602879701896397 / 18014398509481984) / pow2 (- 10 - 52))
          = 6755399441055744"
    by (rule round_half_even_below) (simp_all add: pow2_def)
  with nearest_double_at [of "- 10" "15 / 2048 * (3602879701896397 / 18014398509481984)"
      6755399441055744]
  show ?thesis by (simp add: pow2_def)
qed

lemma fare_short_4: "nearest_double (15 / 4096 * (1 / 2)) = Fin (15 / 8192)"
  using nearest_double_small_int [of "- 10" "15 / 4096 * (1 / 2)" "15 * 2 ^ 49"]
  by (simp add: pow2_def)

lemma fare_short_5: "nearest_double (5 / 2 + 15 / 8192) = Fin (20495 / 8192)"
  using nearest_double_small_int [of 1 "5 / 2 + 15 / 8192" "20495 * 2 ^ 38"]
  by (simp add: pow2_def)

lemma fare_short_6: "nearest_double (20495 / 8192 + 3 / 2048) = Fin (20507 / 8192)"
  using nearest_double_small_int [of 1 "20495 / 8192 + 3 / 2048" "20507 * 2 ^ 38"]
  by (simp add: pow2_def)

lemma fare_short_7: "round_half_even (20507 / 8192 * 10\<^sup>2) = 250"
  by (rule round_half_even_below) simp_all

lemma fare_short_8: "nearest_double (250 / 10\<^sup>2) = Fin (5 / 2)"
  using nearest_double_five_halves by simp

text \<open>
  The fare is not strictly increasing: 15/4096 km (about 3.7 m) cost what no distance
  costs.
\<close>

lemma estimate_fare_not_strict:
  "estimate_fare (15 / 4096) = Inr (Fin (5 / 2)) \<and> estimate_fare 0 = estimate_fare (15 / 4096)"
proof -
  have t: "fmul (fmul (nearest_double (15 / 4096 / 30)) (Fin 60)) TIME_RATE = Fin (3 / 2048)"
    by (simp only: fare_short_1 fmul.simps fare_short_2 TIME_RATE_value fare_short_3)
  have k: "fadd BASE_FARE (fmul (Fin (15 / 4096)) BASE_RATE) = Fin (20495 / 8192)"
    by (simp only: BASE_FARE_value BASE_RATE_value fmul.simps fare_short_4 fadd.simps
        fare_short_5)
  have s: "fadd (Fin (20495 / 8192)) (Fin (3 / 2048)) = Fin (20507 / 8192)"
    by (simp only: fadd.simps fare_short_6)
  have r: "py_round (Fin (20507 / 8192)) 2 = Fin (5 / 2)"
    by (simp only: py_round.simps fare_short_7 fare_short_8 of_int_numeral)
  have "estimate_fare (15 / 4096) = Inr (Fin (5 / 2))"
    by (simp only: estimate_fare_value t k s r)
  then show ?thesis by (simp only: estimate_fare_zero simp_thms)
qed

text \<open>
  Overflow: a real number of at least \<open>2 ^ 1024\<close> rounds to infinity, and the fare of a
  finite distance can be infinite.
\<close>

lemma nearest_double_overflow:
  assumes "pow2 1024 \<le> x"
  shows "nearest_double x = PInf"
proof -
  have p: "0 < pow2 1024" by (rule pow2_pos)
  with assms have x: "0 < x" by linarith
  have "\<lfloor>log 2 (pow2 1024)\<rfloor> = 1024"
    using p by (rule binade) (simp_all add: pow2_def)
  with p have "binade_of (pow2 1024) = 1024" by (simp add: binade_of_def)
  with binade_of_mono [OF p assms] have b: "1024 \<le> binade_of x" by simp
  then have "pow2 1024 \<le> pow2 (binade_of x)" by (rule pow2_mono)
  moreover from b have "- 1022 < binade_of x" by simp
  with x have "pow2 (binade_of x) \<le> round_to_ulp x" by (rule round_to_ulp_lower)
  ultimately have "pow2 1024 \<le> round_to_ulp x" by linarith
  with x show ?thesis by (simp add: nearest_double_def Let_def)
qed

lemma float_le_nonneg_refl: "float_le (Fin 0) a \<Longrightarrow> float_le a a"
  by (cases a) simp_all

lemma fadd_PInf: "float_le (Fin 0) a \<Longrightarrow> fadd a PInf = PInf"
  by (cases a) simp_all

lemma estimate_fare_overflow: "estimate_fare (3 * 2 ^ 1022) = Inr PInf"
proof -
  let ?d = "3 * 2 ^ 1022 :: real"
  have low: "nearest_double (3 * 2 ^ 1017) = Fin (3 * 2 ^ 1017)"
    using nearest_double_small_int [of 1018 "3 * 2 ^ 1017" "3 * 2 ^ 51"]
    by (simp add: pow2_def)
  have "float_le (nearest_double (3 * 2 ^ 1017)) (nearest_double (?d / 30))"
    by (rule nearest_double_mono) simp_all
  then have t: "float_le (Fin (3 * 2 ^ 1017)) (nearest_double (?d / 30))"
    by (simp only: low)
  have m: "fmul (nearest_double (?d / 30)) (Fin 60) = PInf"
  proof (cases "nearest_double (?d / 30)")
    case (Fin y)
    with t have "3 * 2 ^ 1017 \<le> y" by simp
    then have "pow2 1024 \<le> y * 60" by (simp add: pow2_def)
    then have "nearest_double (y * 60) = PInf" by (rule nearest_double_overflow)
    with Fin show ?thesis by simp
  next
    case PInf
    then show ?thesis by simp
  next
    case NInf
    with t show ?thesis by simp
  next
    case NaN
    with t show ?thesis by simp
  qed
  have tr: "fmul PInf TIME_RATE = PInf"
    by (simp add: TIME_RATE_value)
  have k0: "float_le (Fin 0) (fmul (Fin ?d) BASE_RATE)"
    by (simp add: BASE_RATE_value nearest_double_nonneg)
  then have kk: "float_le (fmul (Fin ?d) BASE_RATE) (fmul (Fin ?d) BASE_RATE)"
    by (rule float_le_nonneg_refl)
  have b0: "float_le (Fin 0) BASE_FARE" and bb: "float_le BASE_FARE BASE_FARE"
    by (simp_all add: BASE_FARE_value)
  from fadd_mono [OF b0 k0 bb kk]
  have "float_le (Fin 0) (fadd BASE_FARE (fmul (Fin ?d) BASE_RATE))" by (elim conjE)
  then have s: "fadd (fadd BASE_FARE (fmul (Fin ?d) BASE_RATE)) PInf = PInf"
    by (rule fadd_PInf)
  show ?thesis
    by (simp only: estimate_fare_value m tr s py_round.simps)
qed

lemma nearest_double_318:
  "nearest_double (159 / 50) = Fin (7160723407519089 / 2251799813685248)"
proof -
  have "round_half_even (159 / 50 / pow2 (1 - 52)) = 7160723407519088 + 1"
    by (rule round_half_even_above) (simp_all add: pow2_def)
  with nearest_double_at [of 1 "159 / 50" 7160723407519089] show ?thesis
    by (simp add: pow2_def)
qed

text \<open>
  Claim C4, as the specification words it. Read as arithmetic on numbers, the formula
  gives 2.50 + 0.375 + 0.30 = 3.175 at three quarters of a kilometre, which rounds to 3.18
  (\<open>fare_spec\<close>; the tie goes to 3.18 under rounding to even and under rounding half
  up). The code computes in doubles with the double nearest to 0.20 as its time rate:
  the sum is the double just below 3.175, and the code returns the double written 3.17.
\<close>

theorem estimate_fare_not_exact_formula:
  "estimate_fare (3 / 4) = Inr (Fin (1784551352345559 / 562949953421312))
   \<and> (1784551352345559 / 562949953421312 :: real) < 3175 / 1000
   \<and> fare_spec (3 / 4) = 318 / 100
   \<and> estimate_fare (3 / 4) \<noteq> Inr (Fin (fare_spec (3 / 4)))
   \<and> estimate_fare (3 / 4) \<noteq> Inr (nearest_double (fare_spec (3 / 4)))"
  by (simp add: estimate_fare_075 fare_spec_075 nearest_double_318)

text \<open>
  Claim C4, amended. For a distance that is not negative, \<open>_estimate_fare\<close> returns the
  formula evaluated in double arithmetic: every operation rounds to the nearest double,
  the constants are the doubles 2.5, 0.5 and the double nearest to 0.20, and \<open>round\<close>
  acts on the exact value of the double sum. The call raises no error, the fare of
  distance 0 is 2.50, and a longer distance never has a smaller fare. The order is the
  weak one (15/4096 km cost 2.50 as well), and the fare of a finite distance can be
  infinite (\<open>3 * 2 ^ 1022\<close> km).
\<close>

theorem estimate_fare_double:
  "0 \<le> d \<Longrightarrow> d \<le> d' \<Longrightarrow>
     BASE_FARE = Fin (5 / 2) \<and> BASE_RATE = Fin (1 / 2)
     \<and> TIME_RATE = Fin (3602879701896397 / 18014398509481984)
     \<and> estimate_fare d =
         Inr (py_round
                (fadd (fadd BASE_FARE (fmul (Fin d) BASE_RATE))
                   (fmul (fmul (nearest_double (d / 30)) (Fin 60)) TIME_RATE)) 2)
     \<and> estimate_fare 0 = Inr (Fin (5 / 2))
     \<and> (\<exists>f f'. estimate_fare d = Inr f \<and> estimate_fare d' = Inr f' \<and> float_le f f')
     \<and> estimate_fare (15 / 4096) = estimate_fare 0
     \<and> estimate_fare (3 * 2 ^ 1022) = Inr PInf"
proof -
  assume d: "0 \<le> d" "d \<le> d'"
  have e: "estimate_fare (15 / 4096) = estimate_fare 0"
    using estimate_fare_not_strict by (elim conjE) (rule sym)
  from d have m: "\<exists>f f'. estimate_fare d = Inr f \<and> estimate_fare d' = Inr f' \<and> float_le f f'"
    by (rule estimate_fare_mono)
  from BASE_FARE_value BASE_RATE_value TIME_RATE_value estimate_fare_value [of d]
    estimate_fare_zero m e estimate_fare_overflow
  show ?thesis by (intro conjI)
qed

theorem estimate_fare_double_witness:
  "(0::real) \<le> 3 / 4
   \<and> estimate_fare 0 = Inr (Fin (5 / 2))
   \<and> estimate_fare (3 / 4) = Inr (Fin (1784551352345559 / 562949953421312))
   \<and> float_le (Fin (5 / 2)) (Fin (1784551352345559 / 562949953421312))"
proof -
  have h1: "(0::real) \<le> 0" and h2: "(0::real) \<le> 3 / 4" by simp_all
  note t = estimate_fare_double [OF h1 h2]
  from t have z: "estimate_fare 0 = Inr (Fin (5 / 2))" by (elim conjE)
  from t obtain f f' where "estimate_fare 0 = Inr f" "estimate_fare (3 / 4) = Inr f'"
    "float_le f f'"
    by (elim conjE exE)
  with z have "float_le (Fin (5 / 2)) (Fin (1784551352345559 / 562949953421312))"
    by (simp add: estimate_fare_075)
  with z h2 show ?thesis
    by (simp only: estimate_fare_075 simp_thms)
qed

subsection \<open>Geo utilities\<close>

text \<open>
  Claim C7. Building a location raises \<^verbatim>\<open>ValueError\<close> exactly when the latitude lies outside
  \<open>[-90, 90]\<close> or the longitude outside \<open>[-180, 180]\<close>, the bounds included; otherwise the
  location holds the two numbers as given. Latitude 91 fails; latitudes -90 and 90 succeed.
\<close>

theorem Location_init_range:
  "(Location_init lat lon = Inl ValueError
      \<longleftrightarrow> lat < - 90 \<or> 90 < lat \<or> lon < - 180 \<or> 180 < lon)
   \<and> Location_init lat lon =
       (if lat < - 90 \<or> 90 < lat \<or> lon < - 180 \<or> 180 < lon then Inl ValueError
        else Inr \<lparr>latitude = lat, longitude = lon\<rparr>)
   \<and> Location_init 91 lon = Inl ValueError
   \<and> Location_init (- 90) 0 = Inr \<lparr>latitude = - 90, longitude = 0\<rparr>
   \<and> Location_init 90 0 = Inr \<lparr>latitude = 90, longitude = 0\<rparr>"
  by (auto simp: Location_init_def)

theorem Location_init_range_witness:
  "Location_init 91 28 = Inl ValueError
   \<and> Location_init 41 181 = Inl ValueError
   \<and> Location_init 41 (- 180) = Inr \<lparr>latitude = 41, longitude = - 180\<rparr>"
  using Location_init_range [of 91 28] Location_init_range [of 41 181]
    Location_init_range [of 41 "- 180"]
  by simp

text \<open>
  With operations that do not round, the haversine term lies between 0 and 1, so that
  neither square root raises; the distance is then zero from a location to itself and
  the same in both directions.
\<close>

lemma sin_half_squared: "(sin ((t::real) / 2))\<^sup>2 = (1 - cos t) / 2"
  using cos_double_sin [of "t / 2"] by simp

lemma cauchy_schwarz2: "((a::real) * x + b * y)\<^sup>2 \<le> (a\<^sup>2 + b\<^sup>2) * (x\<^sup>2 + y\<^sup>2)"
proof -
  have "(a\<^sup>2 + b\<^sup>2) * (x\<^sup>2 + y\<^sup>2) - (a * x + b * y)\<^sup>2 = (a * y - b * x)\<^sup>2"
    by (simp add: power2_eq_square algebra_simps)
  moreover have "0 \<le> (a * y - b * x)\<^sup>2" by simp
  ultimately show ?thesis by linarith
qed

lemma central_cos_bound:
  fixes x y l :: real
  shows "\<bar>sin x * sin y + cos x * cos y * cos l\<bar> \<le> 1"
proof -
  let ?t = "sin x * sin y + cos x * (cos y * cos l)"
  have "?t\<^sup>2 \<le> ((sin x)\<^sup>2 + (cos x)\<^sup>2) * ((sin y)\<^sup>2 + (cos y * cos l)\<^sup>2)"
    by (rule cauchy_schwarz2)
  also have "\<dots> = (sin y)\<^sup>2 + (cos y)\<^sup>2 * (cos l)\<^sup>2"
    by (simp add: power_mult_distrib)
  also have "\<dots> \<le> 1"
  proof -
    have "(cos l)\<^sup>2 \<le> 1" by (simp add: abs_square_le_1)
    then have "(cos y)\<^sup>2 * (cos l)\<^sup>2 \<le> (cos y)\<^sup>2 * 1"
      by (intro mult_left_mono) simp_all
    moreover have "(sin y)\<^sup>2 + (cos y)\<^sup>2 = 1" by simp
    ultimately show ?thesis by linarith
  qed
  finally have "?t\<^sup>2 \<le> 1" .
  then have "\<bar>?t\<bar> \<le> 1" by (simp add: abs_square_le_1)
  then show ?thesis by (simp add: mult.assoc)
qed

lemma haversine_algebra:
  fixes x y l :: real
  shows "(sin ((y - x) / 2))\<^sup>2 + cos x * cos y * (sin (l / 2))\<^sup>2
         = (1 - (sin x * sin y + cos x * cos y * cos l)) / 2"
proof -
  have "(sin ((y - x) / 2))\<^sup>2 = (1 - (cos y * cos x + sin y * sin x)) / 2"
    by (simp add: sin_half_squared cos_diff)
  moreover have "(sin (l / 2))\<^sup>2 = (1 - cos l) / 2"
    by (rule sin_half_squared)
  ultimately have "(sin ((y - x) / 2))\<^sup>2 + cos x * cos y * (sin (l / 2))\<^sup>2
      = (1 - (cos y * cos x + sin y * sin x)) / 2 + cos x * cos y * ((1 - cos l) / 2)"
    by (simp only:)
  also have "\<dots> = (1 - (sin x * sin y + cos x * cos y * cos l)) / 2"
    by (simp add: algebra_simps diff_divide_distrib add_divide_distrib)
  finally show ?thesis .
qed

lemma haversine_a_range: "0 \<le> haversine_a exact_machine p q \<and> haversine_a exact_machine p q \<le> 1"
proof -
  define t where "t = sin (radians (latitude p)) * sin (radians (latitude q))
           + cos (radians (latitude p)) * cos (radians (latitude q))
             * cos (radians (longitude q) - radians (longitude p))"
  have "\<bar>t\<bar> \<le> 1" unfolding t_def by (rule central_cos_bound)
  moreover have "haversine_a exact_machine p q = (1 - t) / 2"
    unfolding t_def by (simp add: haversine_a_def exact_machine_def Let_def haversine_algebra)
  ultimately show ?thesis by (auto simp: abs_le_iff)
qed

lemma exact_distance: "calculate_distance exact_machine p q = Inr (haversine_km p q)"
proof -
  have "\<not> haversine_a exact_machine p q < 0" "\<not> 1 - haversine_a exact_machine p q < 0"
    using haversine_a_range [of p q] by simp_all
  then show ?thesis
    by (simp add: calculate_distance_def haversine_km_def Let_def exact_machine_def)
qed

lemma haversine_a_sym: "haversine_a exact_machine p q = haversine_a exact_machine q p"
proof -
  have sq: "(sin ((x - y) / 2))\<^sup>2 = (sin ((y - x) / 2))\<^sup>2" for x y :: real
  proof -
    have "(x - y) / 2 = - ((y - x) / 2)" by (simp add: field_simps)
    then have "sin ((x - y) / 2) = - sin ((y - x) / 2)"
      by (simp only: sin_minus)
    then show ?thesis by simp
  qed
  show ?thesis
    by (simp add: haversine_a_def exact_machine_def Let_def sq [of "radians (latitude q)"]
        sq [of "radians (longitude q)"] mult.commute)
qed

lemma haversine_a_same: "haversine_a exact_machine p p = 0"
  by (simp add: haversine_a_def exact_machine_def Let_def)

lemma haversine_km_same: "haversine_km p p = 0"
  by (simp add: haversine_km_def haversine_a_same atan2_def)

lemma haversine_km_sym: "haversine_km p q = haversine_km q p"
  by (simp add: haversine_km_def haversine_a_sym [of p q])

lemma exact_distance_zero_symmetric:
  "calculate_distance exact_machine a a = Inr 0
   \<and> calculate_distance exact_machine a b = calculate_distance exact_machine b a"
  using haversine_km_sym [of a b] by (simp add: exact_distance haversine_km_same)

text \<open>
  For an arbitrary machine the call raises exactly when the computed haversine term is
  negative or exceeds 1, the two arguments being handed to \<^verbatim>\<open>math.sqrt\<close>.
\<close>

lemma calculate_distance_raises_iff:
  "calculate_distance M a b = Inl ValueError
     \<longleftrightarrow> haversine_a M a b < 0 \<or> fl_sub M 1 (haversine_a M a b) < 0"
  by (simp add: calculate_distance_def Let_def)

subsection \<open>Ride requests\<close>

text \<open>
  Claim C6. \<open>request_ride\<close> raises \<^verbatim>\<open>InvalidRequestError\<close> exactly when pickup and dropoff
  agree in latitude and in longitude, and then leaves the state as it was; otherwise it
  builds a request with status \<^verbatim>\<open>Pending\<close>, appends it to \<open>requests\<close> and returns it.
\<close>

theorem request_ride_rejects_equal:
  "(fst (request_ride s uid now psg pickup dropoff) = Inl InvalidRequestError
      \<longleftrightarrow> latitude pickup = latitude dropoff \<and> longitude pickup = longitude dropoff)
   \<and> request_ride s uid now psg pickup dropoff =
       (if latitude pickup = latitude dropoff \<and> longitude pickup = longitude dropoff
        then (Inl InvalidRequestError, s)
        else (Inr (next_request s),
              s\<lparr>request_heap := (request_heap s)
                   (next_request s :=
                      \<lparr>request_id = uid, passenger = psg, pickup_loc = pickup,
                       dropoff_loc = dropoff, timestamp = now,
                       request_status = ''Pending''\<rparr>),
                 next_request := Suc (next_request s),
                 requests := requests s @ [next_request s]\<rparr>))"
  by (simp add: request_ride_def RideRequest_init_def Let_def)

theorem request_ride_rejects_equal_witness:
  "fst (request_ride blank_state ''q'' 1 0 origin origin) = Inl InvalidRequestError
   \<and> snd (request_ride blank_state ''q'' 1 0 origin origin) = blank_state
   \<and> fst (request_ride blank_state ''q'' 1 0 origin antipode) = Inr 0
   \<and> requests (snd (request_ride blank_state ''q'' 1 0 origin antipode)) = [0]
   \<and> request_status (request_heap (snd (request_ride blank_state ''q'' 1 0 origin antipode)) 0)
       = ''Pending''"
  using request_ride_rejects_equal [of blank_state "''q''" 1 0 origin origin]
    request_ride_rejects_equal [of blank_state "''q''" 1 0 origin antipode]
  by (simp add: origin_def antipode_def blank_state_def)

subsection \<open>Matching engine\<close>

lemma calculate_distance_error: "calculate_distance M a b = Inl e \<Longrightarrow> e = ValueError"
  by (auto simp: calculate_distance_def Let_def split: if_splits)

lemma driver_distance_cases:
  "driver_distance M s p x = Inl ValueError \<or> (\<exists>v. driver_distance M s p x = Inr v)"
proof (cases "driver_distance M s p x")
  case (Inl e)
  then show ?thesis
    using calculate_distance_error [of M "current_location (driver_heap s x)" p e]
    by (simp add: driver_distance_def)
next
  case (Inr v)
  then show ?thesis by simp
qed

lemma nearest_loop_raise:
  "driver_distance M s p x = Inl ValueError \<Longrightarrow>
   nearest_loop M s p (x # ds) nd md = Inl ValueError"
  by (simp add: driver_distance_def)

lemma nearest_loop_value:
  "driver_distance M s p x = Inr v \<Longrightarrow>
   nearest_loop M s p (x # ds) nd md =
     (if float_less (Fin v) md then nearest_loop M s p ds (Some x) (Fin v)
      else nearest_loop M s p ds nd md)"
  by (simp add: driver_distance_def)

lemma matching_loop_raise:
  "driver_distance M s p x = Inl ValueError \<Longrightarrow>
   matching_loop M s p (x # ds) nd ma = Inl ValueError"
  by (simp add: driver_distance_def)

lemma matching_loop_value:
  "driver_distance M s p x = Inr v \<Longrightarrow>
   matching_loop M s p (x # ds) nd ma =
     (if float_less (Fin (v / AVG_SPEED_KM_PER_MIN)) ma
      then matching_loop M s p ds (Some x) (Fin (v / AVG_SPEED_KM_PER_MIN))
      else matching_loop M s p ds nd ma)"
  by (simp add: driver_distance_def Let_def)

lemma nearest_loop_raises:
  "\<exists>x\<in>set ds. driver_distance M s p x = Inl ValueError \<Longrightarrow>
   nearest_loop M s p ds nd md = Inl ValueError"
proof (induction ds arbitrary: nd md)
  case Nil
  then show ?case by simp
next
  case (Cons a ds)
  show ?case
  proof (cases "driver_distance M s p a = Inl ValueError")
    case True
    then show ?thesis by (rule nearest_loop_raise)
  next
    case False
    with driver_distance_cases [of M s p a] obtain v where v: "driver_distance M s p a = Inr v"
      by blast
    with Cons.prems have "\<exists>x\<in>set ds. driver_distance M s p x = Inl ValueError" by auto
    then show ?thesis
      by (simp add: nearest_loop_value [OF v] Cons.IH del: nearest_loop.simps)
  qed
qed

lemma nearest_loop_first_min:
  assumes "seen = pre @ d # post"
    and "driver_distance M s p d = Inr v"
    and "\<forall>x\<in>set pre. \<exists>w. driver_distance M s p x = Inr w \<and> v < w"
    and "\<forall>x\<in>set post. \<exists>w. driver_distance M s p x = Inr w \<and> v \<le> w"
    and "\<forall>x\<in>set ds. \<exists>w. driver_distance M s p x = Inr w"
  shows "\<exists>pre' d' post' v'. seen @ ds = pre' @ d' # post'
           \<and> driver_distance M s p d' = Inr v'
           \<and> (\<forall>x\<in>set pre'. \<exists>w. driver_distance M s p x = Inr w \<and> v' < w)
           \<and> (\<forall>x\<in>set post'. \<exists>w. driver_distance M s p x = Inr w \<and> v' \<le> w)
           \<and> nearest_loop M s p ds (Some d) (Fin v) = Inr (Some d', Fin v')"
  using assms
proof (induction ds arbitrary: seen pre d post v)
  case Nil
  then show ?case by auto
next
  case (Cons e ds)
  from Cons.prems(5) obtain u where u: "driver_distance M s p e = Inr u" by auto
  from Cons.prems(5) have rest: "\<forall>x\<in>set ds. \<exists>w. driver_distance M s p x = Inr w" by simp
  show ?case
  proof (cases "u < v")
    case True
    have a: "seen @ [e] = seen @ e # []" by simp
    have b: "\<forall>x\<in>set seen. \<exists>w. driver_distance M s p x = Inr w \<and> u < w"
    proof
      fix x assume "x \<in> set seen"
      with Cons.prems(1) consider "x \<in> set pre" | "x = d" | "x \<in> set post" by auto
      then show "\<exists>w. driver_distance M s p x = Inr w \<and> u < w"
      proof cases
        case 1
        with Cons.prems(3) obtain w where "driver_distance M s p x = Inr w" "v < w" by blast
        with True show ?thesis by auto
      next
        case 2
        with Cons.prems(2) True show ?thesis by auto
      next
        case 3
        with Cons.prems(4) obtain w where "driver_distance M s p x = Inr w" "v \<le> w" by blast
        with True show ?thesis by auto
      qed
    qed
    have c: "\<forall>x\<in>set []. \<exists>w. driver_distance M s p x = Inr w \<and> u \<le> w" by simp
    from Cons.IH [OF a u b c rest] True show ?thesis
      by (simp add: nearest_loop_value [OF u] del: nearest_loop.simps)
  next
    case False
    have a: "seen @ [e] = pre @ d # (post @ [e])" using Cons.prems(1) by simp
    have c: "\<forall>x\<in>set (post @ [e]). \<exists>w. driver_distance M s p x = Inr w \<and> v \<le> w"
      using Cons.prems(4) u False by auto
    from Cons.IH [OF a Cons.prems(2) Cons.prems(3) c rest] False show ?thesis
      by (simp add: nearest_loop_value [OF u] del: nearest_loop.simps)
  qed
qed

lemma nearest_loop_selects:
  assumes "ds \<noteq> []" and "\<forall>x\<in>set ds. \<exists>w. driver_distance M s p x = Inr w"
  shows "\<exists>pre d post v. ds = pre @ d # post
           \<and> driver_distance M s p d = Inr v
           \<and> (\<forall>x\<in>set pre. \<exists>w. driver_distance M s p x = Inr w \<and> v < w)
           \<and> (\<forall>x\<in>set post. \<exists>w. driver_distance M s p x = Inr w \<and> v \<le> w)
           \<and> nearest_loop M s p ds None PInf = Inr (Some d, Fin v)"
proof -
  from assms(1) obtain e es where ds: "ds = e # es" by (cases ds) auto
  with assms(2) obtain u where u: "driver_distance M s p e = Inr u" by auto
  from ds assms(2) have rest: "\<forall>x\<in>set es. \<exists>w. driver_distance M s p x = Inr w" by simp
  have a: "[e] = [] @ e # []" by simp
  have "\<exists>pre' d' post' v'. [e] @ es = pre' @ d' # post'
           \<and> driver_distance M s p d' = Inr v'
           \<and> (\<forall>x\<in>set pre'. \<exists>w. driver_distance M s p x = Inr w \<and> v' < w)
           \<and> (\<forall>x\<in>set post'. \<exists>w. driver_distance M s p x = Inr w \<and> v' \<le> w)
           \<and> nearest_loop M s p es (Some e) (Fin u) = Inr (Some d', Fin v')"
    by (rule nearest_loop_first_min [OF a u _ _ rest]) simp_all
  then show ?thesis
    by (simp add: ds nearest_loop_value [OF u] del: nearest_loop.simps)
qed

lemma arrival_time_less:
  "float_less (Fin (v / AVG_SPEED_KM_PER_MIN)) (arrival_time md) = float_less (Fin v) md"
  by (cases md) (simp_all add: AVG_SPEED_KM_PER_MIN_def)

lemma matching_loop_simulates:
  "matching_loop M s p ds nd (arrival_time md) =
     (case nearest_loop M s p ds nd md of
        Inl e \<Rightarrow> Inl e
      | Inr (nd', md') \<Rightarrow> Inr (nd', arrival_time md'))"
proof (induction ds arbitrary: nd md)
  case Nil
  then show ?case by simp
next
  case (Cons a ds)
  show ?case
  proof (cases "driver_distance M s p a = Inl ValueError")
    case True
    then show ?thesis
      by (simp only: nearest_loop_raise matching_loop_raise sum.case)
  next
    case False
    with driver_distance_cases [of M s p a] obtain v where v: "driver_distance M s p a = Inr v"
      by blast
    show ?thesis
    proof (cases "float_less (Fin v) md")
      case True
      have "matching_loop M s p (a # ds) nd (arrival_time md)
            = matching_loop M s p ds (Some a) (arrival_time (Fin v))"
        using True by (simp only: matching_loop_value [OF v] arrival_time_less if_True
            arrival_time.simps)
      also have "\<dots> = (case nearest_loop M s p ds (Some a) (Fin v) of
                          Inl e \<Rightarrow> Inl e
                        | Inr (nd', md') \<Rightarrow> Inr (nd', arrival_time md'))"
        by (rule Cons.IH)
      finally show ?thesis
        using True by (simp only: nearest_loop_value [OF v] if_True)
    next
      case False
      have "matching_loop M s p (a # ds) nd (arrival_time md)
            = matching_loop M s p ds nd (arrival_time md)"
        using False by (simp only: matching_loop_value [OF v] arrival_time_less if_False)
      also have "\<dots> = (case nearest_loop M s p ds nd md of
                          Inl e \<Rightarrow> Inl e
                        | Inr (nd', md') \<Rightarrow> Inr (nd', arrival_time md'))"
        by (rule Cons.IH)
      finally show ?thesis
        using False by (simp only: nearest_loop_value [OF v] if_False)
    qed
  qed
qed

lemma nearest_loop_result:
  assumes "nearest_loop M s p ds nd md = Inr (nd', md')"
    and "(nd = None \<and> md = PInf) \<or> (\<exists>d v. nd = Some d \<and> md = Fin v \<and> driver_distance M s p d = Inr v)"
  shows "(nd = None \<and> ds = [] \<and> nd' = None \<and> md' = PInf)
         \<or> (\<exists>d v. nd' = Some d \<and> md' = Fin v \<and> driver_distance M s p d = Inr v)"
  using assms
proof (induction ds arbitrary: nd md)
  case Nil
  then show ?case by auto
next
  case (Cons a ds)
  have "driver_distance M s p a \<noteq> Inl ValueError"
    using Cons.prems(1) nearest_loop_raise [of M s p a ds nd md] by auto
  with driver_distance_cases [of M s p a] obtain v where v: "driver_distance M s p a = Inr v"
    by blast
  show ?case
  proof (cases "float_less (Fin v) md")
    case True
    with Cons.prems(1) have r: "nearest_loop M s p ds (Some a) (Fin v) = Inr (nd', md')"
      by (simp add: nearest_loop_value [OF v] del: nearest_loop.simps)
    have "(Some a = None \<and> Fin v = PInf)
          \<or> (\<exists>d w. Some a = Some d \<and> Fin v = Fin w \<and> driver_distance M s p d = Inr w)"
      using v by simp
    from Cons.IH [OF r this] show ?thesis by simp
  next
    case False
    with Cons.prems(1) have r: "nearest_loop M s p ds nd md = Inr (nd', md')"
      by (simp add: nearest_loop_value [OF v] del: nearest_loop.simps)
    from False Cons.prems(2) have some: "\<exists>d. nd = Some d" by auto
    from Cons.IH [OF r Cons.prems(2)] some show ?thesis by auto
  qed
qed

lemma matching_eq_nearest:
  "optimized_driver_matching M s req = find_nearest_driver M s (pickup_loc (request_heap s req))"
proof (cases "filter (\<lambda>d. is_available (driver_heap s d)) (drivers s) = []")
  case True
  then show ?thesis
    by (simp add: optimized_driver_matching_def find_nearest_driver_def Let_def)
next
  case False
  let ?av = "filter (\<lambda>d. is_available (driver_heap s d)) (drivers s)"
  let ?p = "pickup_loc (request_heap s req)"
  have sim: "matching_loop M s ?p ?av None PInf =
     (case nearest_loop M s ?p ?av None PInf of
        Inl e \<Rightarrow> Inl e
      | Inr (nd', md') \<Rightarrow> Inr (nd', arrival_time md'))"
    using matching_loop_simulates [of M s ?p ?av None PInf] by simp
  show ?thesis
  proof (cases "nearest_loop M s ?p ?av None PInf")
    case (Inl e)
    with False sim show ?thesis
      by (simp add: optimized_driver_matching_def find_nearest_driver_def Let_def)
  next
    case (Inr res)
    obtain nd' md' where res: "res = (nd', md')" by (cases res)
    from nearest_loop_result [of M s ?p ?av None PInf nd' md'] Inr res False
    obtain d v where dv: "nd' = Some d" "md' = Fin v" "driver_distance M s ?p d = Inr v"
      by auto
    from dv(3) have cd: "calculate_distance M (current_location (driver_heap s d)) ?p = Inr v"
      by (simp add: driver_distance_def)
    from False sim Inr res dv(1,2) cd show ?thesis
      by (simp add: optimized_driver_matching_def find_nearest_driver_def Let_def)
  qed
qed

lemma find_nearest_driver_Some:
  assumes "find_nearest_driver M s p = Inr (nd, dd)"
  shows "nd \<noteq> None"
proof -
  let ?av = "filter (\<lambda>d. is_available (driver_heap s d)) (drivers s)"
  from assms have ne: "?av \<noteq> []"
    by (auto simp: find_nearest_driver_def Let_def split: if_splits)
  with assms have "nearest_loop M s p ?av None PInf = Inr (nd, dd)"
    by (simp add: find_nearest_driver_def Let_def)
  from nearest_loop_result [OF this] ne show ?thesis by auto
qed

lemma no_driver_available:
  "\<forall>d\<in>set (drivers s). \<not> is_available (driver_heap s d) \<Longrightarrow>
   find_nearest_driver M s p = Inl NoDriverFoundError"
  by (simp add: find_nearest_driver_def Let_def filter_empty_conv)

subsection \<open>The example states, evaluated\<close>

lemma haversine_km_far: "haversine_km antipode origin = 6371 * pi"
proof -
  have "(0 - radians 180) / 2 = - (pi / 2)" by (simp add: radians_def)
  then have "sin ((0 - radians 180) / 2) = - 1" by (simp only: sin_minus sin_pi_half)
  then have "haversine_a exact_machine antipode origin = 1"
    by (simp add: haversine_a_def exact_machine_def antipode_def origin_def Let_def radians_def)
  then show ?thesis
    by (simp add: haversine_km_def atan2_def EARTH_RADIUS_KM_def)
qed

lemma fleet_state_eval:
  "drivers fleet_state = [0, 1, 2]"
  "rides fleet_state = []"
  "requests fleet_state = [0]"
  "next_request fleet_state = 1"
  "next_ride fleet_state = 0"
  "pickup_loc (request_heap fleet_state 0) = origin"
  "dropoff_loc (request_heap fleet_state 0) = antipode"
  "passenger (request_heap fleet_state 0) = 0"
  "current_location (driver_heap fleet_state 0) = antipode"
  "current_location (driver_heap fleet_state (Suc 0)) = origin"
  "current_location (driver_heap fleet_state 2) = origin"
  "is_available (driver_heap fleet_state 0)"
  "is_available (driver_heap fleet_state (Suc 0))"
  "is_available (driver_heap fleet_state 2)"
  by (simp_all add: fleet_state_def fleet_calls_def blank_state_def Vehicle_init_def
      Driver_init_def Passenger_init_def add_driver_def add_passenger_def request_ride_def
      RideRequest_init_def Let_def origin_def antipode_def)

lemma fleet_state_more:
  "ride_heap fleet_state = ride_heap blank_state"
  "vehicle (driver_heap fleet_state (Suc 0)) = Suc 0"
  "driver_total_rides (driver_heap fleet_state (Suc 0)) = 0"
  "rating (driver_heap fleet_state (Suc 0)) = 5"
  "earnings (driver_heap fleet_state (Suc 0)) = 0"
  "mileage (vehicle_heap fleet_state (Suc 0)) = 0"
  "passenger_total_rides (passenger_heap fleet_state 0) = 0"
  by (simp_all add: fleet_state_def fleet_calls_def blank_state_def Vehicle_init_def
      Driver_init_def Passenger_init_def add_driver_def add_passenger_def request_ride_def
      RideRequest_init_def Let_def origin_def antipode_def)

lemma fleet_available:
  "filter (\<lambda>d. is_available (driver_heap fleet_state d)) (drivers fleet_state) = [0, 1, 2]"
  by (simp add: fleet_state_eval)

lemma fleet_nearest:
  "find_nearest_driver exact_machine fleet_state origin = Inr (Some (Suc 0), Fin 0)"
  by (simp add: find_nearest_driver_def fleet_available fleet_state_eval
      exact_distance haversine_km_far haversine_km_same)


lemma riding_state_pickup: "pickup_loc (request_heap riding_state 0) = origin"
  by (simp add: riding_state_def assign_ride_def fleet_state_eval fleet_nearest
      start_ride_def exact_distance estimate_fare_value Ride_init_def Let_def
      set_availability_def set_status_def fleet_state_more)

lemma busy_state_eval:
  "drivers busy_state = [0]"
  "\<not> is_available (driver_heap busy_state 0)"
  "requests busy_state = [0, Suc 0]"
  by (simp_all add: busy_state_def busy_calls_def blank_state_def Vehicle_init_def
      Driver_init_def Passenger_init_def add_driver_def add_passenger_def request_ride_def
      RideRequest_init_def Let_def origin_def antipode_def assign_ride_def
      find_nearest_driver_def exact_distance haversine_km_same start_ride_def
      estimate_fare_value Ride_init_def set_availability_def set_status_def)


subsection \<open>Driver selection and assignment\<close>

text \<open>
  What the two searches return, for any machine. A search raises \<^verbatim>\<open>ValueError\<close> exactly
  when the distance call of some available driver raises. When every distance call
  returns, both searches return the first driver, in the order of the collection, whose
  computed distance to the pickup is least among the available drivers.
\<close>

lemma all_return_or_raise:
  "(\<forall>x\<in>set ds. \<exists>w. driver_distance M s p x = Inr w)
   \<or> (\<exists>x\<in>set ds. driver_distance M s p x = Inl ValueError)"
  using driver_distance_cases [of M s p] by blast

lemma search_raises_iff:
  "find_nearest_driver M s p = Inl ValueError
     \<longleftrightarrow> (\<exists>x\<in>set (filter (\<lambda>d. is_available (driver_heap s d)) (drivers s)).
            driver_distance M s p x = Inl ValueError)"
proof (cases "filter (\<lambda>d. is_available (driver_heap s d)) (drivers s) = []")
  case True
  then show ?thesis by (simp add: find_nearest_driver_def Let_def)
next
  case False
  let ?av = "filter (\<lambda>d. is_available (driver_heap s d)) (drivers s)"
  show ?thesis
  proof
    assume r: "find_nearest_driver M s p = Inl ValueError"
    show "\<exists>x\<in>set ?av. driver_distance M s p x = Inl ValueError"
    proof (rule ccontr)
      assume "\<not> (\<exists>x\<in>set ?av. driver_distance M s p x = Inl ValueError)"
      with all_return_or_raise [of ?av M s p]
      have "\<forall>x\<in>set ?av. \<exists>w. driver_distance M s p x = Inr w" by blast
      from nearest_loop_selects [OF False this] obtain d v where
        "nearest_loop M s p ?av None PInf = Inr (Some d, Fin v)" by blast
      with False r show False by (simp add: find_nearest_driver_def Let_def)
    qed
  next
    assume "\<exists>x\<in>set ?av. driver_distance M s p x = Inl ValueError"
    then have "nearest_loop M s p ?av None PInf = Inl ValueError"
      by (rule nearest_loop_raises)
    with False show "find_nearest_driver M s p = Inl ValueError"
      by (simp add: find_nearest_driver_def Let_def)
  qed
qed

lemma search_selects_first_nearest:
  assumes "filter (\<lambda>d. is_available (driver_heap s d)) (drivers s) \<noteq> []"
    and "\<forall>x\<in>set (filter (\<lambda>d. is_available (driver_heap s d)) (drivers s)).
           \<exists>w. driver_distance M s (pickup_loc (request_heap s req)) x = Inr w"
  shows "\<exists>pre d post v.
           filter (\<lambda>d. is_available (driver_heap s d)) (drivers s) = pre @ d # post
           \<and> driver_distance M s (pickup_loc (request_heap s req)) d = Inr v
           \<and> (\<forall>x\<in>set pre. \<exists>w. driver_distance M s (pickup_loc (request_heap s req)) x = Inr w
                  \<and> v < w \<and> v / AVG_SPEED_KM_PER_MIN < w / AVG_SPEED_KM_PER_MIN)
           \<and> (\<forall>x\<in>set post. \<exists>w. driver_distance M s (pickup_loc (request_heap s req)) x = Inr w
                  \<and> v \<le> w \<and> v / AVG_SPEED_KM_PER_MIN \<le> w / AVG_SPEED_KM_PER_MIN)
           \<and> find_nearest_driver M s (pickup_loc (request_heap s req)) = Inr (Some d, Fin v)
           \<and> optimized_driver_matching M s req = Inr (Some d, Fin v)"
proof -
  let ?av = "filter (\<lambda>d. is_available (driver_heap s d)) (drivers s)"
  let ?p = "pickup_loc (request_heap s req)"
  from nearest_loop_selects [OF assms] obtain pre d post v where
    sel: "?av = pre @ d # post" "driver_distance M s ?p d = Inr v"
      "\<forall>x\<in>set pre. \<exists>w. driver_distance M s ?p x = Inr w \<and> v < w"
      "\<forall>x\<in>set post. \<exists>w. driver_distance M s ?p x = Inr w \<and> v \<le> w"
      "nearest_loop M s ?p ?av None PInf = Inr (Some d, Fin v)"
    by blast
  have n: "find_nearest_driver M s ?p = Inr (Some d, Fin v)"
    using assms(1) sel(5) by (simp add: find_nearest_driver_def Let_def)
  then have m: "optimized_driver_matching M s req = Inr (Some d, Fin v)"
    by (simp add: matching_eq_nearest)
  have lt: "a / AVG_SPEED_KM_PER_MIN < b / AVG_SPEED_KM_PER_MIN \<longleftrightarrow> a < b" for a b
    by (simp add: AVG_SPEED_KM_PER_MIN_def)
  have le: "a / AVG_SPEED_KM_PER_MIN \<le> b / AVG_SPEED_KM_PER_MIN \<longleftrightarrow> a \<le> b" for a b
    by (simp add: AVG_SPEED_KM_PER_MIN_def)
  show ?thesis
    apply (rule exI [of _ pre], rule exI [of _ d], rule exI [of _ post], rule exI [of _ v])
    using sel(1-4) n m by (simp add: lt le)
qed

text \<open>
  Claim C8. The optimized matching and the nearest-distance search return the same result
  for every state and request, the error included, and so do the two versions of
  \<open>assign_ride\<close> built on them, whatever the floating-point operations of the distance
  computation return.
\<close>

theorem optimized_matching_is_nearest:
  "optimized_driver_matching M s req = find_nearest_driver M s (pickup_loc (request_heap s req))
   \<and> assign_ride_optimized M s uid now req = assign_ride M s uid now req"
  by (simp add: matching_eq_nearest assign_ride_optimized_def assign_ride_def)

text \<open>
  Claim C1. When no driver of the collection is available (the collection may be empty),
  \<open>assign_ride\<close> raises \<^verbatim>\<open>NoDriverFoundError\<close> and the state after the call is the state
  before it: the four collections, the request and every object are unchanged. The same
  holds for the version of \<^verbatim>\<open>1.1utils.py\<close>.
\<close>

theorem assign_ride_no_driver:
  assumes "\<forall>d\<in>set (drivers s). \<not> is_available (driver_heap s d)"
  shows "assign_ride M s uid now req = (Inl NoDriverFoundError, s)
         \<and> assign_ride_optimized M s uid now req = (Inl NoDriverFoundError, s)"
  using no_driver_available [OF assms]
  by (simp add: assign_ride_def assign_ride_optimized_def matching_eq_nearest)

theorem assign_ride_no_driver_witness:
  "drivers busy_state = [0] \<and> \<not> is_available (driver_heap busy_state 0)
   \<and> assign_ride exact_machine busy_state ''r1'' 400 (Suc 0)
       = (Inl NoDriverFoundError, busy_state)
   \<and> assign_ride_optimized exact_machine busy_state ''r1'' 400 (Suc 0)
       = (Inl NoDriverFoundError, busy_state)"
proof -
  have h: "\<forall>d\<in>set (drivers busy_state). \<not> is_available (driver_heap busy_state d)"
    by (simp add: busy_state_eval)
  from assign_ride_no_driver [OF h, of exact_machine "''r1''" 400 "Suc 0"] show ?thesis
    by (simp add: busy_state_eval)
qed

subsection \<open>Ride completion\<close>

text \<open>
  The state after \<open>Ride.complete\<close>, for a ride that has a driver whose ride count is
  not negative.
\<close>

lemma Driver_complete_ride_ok:
  assumes "0 \<le> driver_total_rides (driver_heap s d)"
  shows "Driver_complete_ride s d fr new_rating =
     (Inr (),
      s\<lparr>driver_heap := (driver_heap s)
          (d := (driver_heap s d)
             \<lparr>driver_total_rides := driver_total_rides (driver_heap s d) + 1,
              earnings := earnings (driver_heap s d) + fr,
              rating := (rating (driver_heap s d) * of_int (driver_total_rides (driver_heap s d))
                           + new_rating)
                        / of_int (driver_total_rides (driver_heap s d) + 1),
              is_available := True\<rparr>)\<rparr>)"
proof -
  have "driver_total_rides (driver_heap s d) + 1 \<noteq> 0" using assms by linarith
  then show ?thesis
    by (simp add: Driver_complete_ride_def set_availability_def Let_def)
qed

lemma Ride_complete_ok:
  assumes "driver (ride_heap s r) = Some d"
    and "0 \<le> driver_total_rides (driver_heap s d)"
  shows "Ride_complete s r now actual_distance final_fare rtg =
     (Inr (),
      s\<lparr>ride_heap := (ride_heap s)
           (r := (ride_heap s r)\<lparr>end_time := Some now, ride_status := ''Completed''\<rparr>),
        driver_heap := (driver_heap s)
          (d := (driver_heap s d)
             \<lparr>current_location := dropoff_loc (request_heap s (request (ride_heap s r))),
              driver_total_rides := driver_total_rides (driver_heap s d) + 1,
              earnings := earnings (driver_heap s d) + final_fare,
              rating := (rating (driver_heap s d) * of_int (driver_total_rides (driver_heap s d))
                           + rtg)
                        / of_int (driver_total_rides (driver_heap s d) + 1),
              is_available := True\<rparr>),
        vehicle_heap := (vehicle_heap s)
          (vehicle (driver_heap s d) :=
             (vehicle_heap s (vehicle (driver_heap s d)))
               \<lparr>mileage := mileage (vehicle_heap s (vehicle (driver_heap s d)))
                            + actual_distance\<rparr>),
        passenger_heap := (passenger_heap s)
          (passenger (request_heap s (request (ride_heap s r))) :=
             (passenger_heap s (passenger (request_heap s (request (ride_heap s r)))))
               \<lparr>passenger_total_rides :=
                  passenger_total_rides
                    (passenger_heap s (passenger (request_heap s (request (ride_heap s r)))))
                  + 1\<rparr>)\<rparr>)"
  using assms
  by (simp add: Ride_complete_def update_location_def Driver_complete_ride_ok
      add_mileage_def Passenger_complete_ride_def Let_def)





subsection \<open>States reached by calls of the service\<close>

lemma Ride_complete_frame:
  "rides (snd (Ride_complete s r now ad ff rtg)) = rides s"
  "request_heap (snd (Ride_complete s r now ad ff rtg)) = request_heap s"
  "next_ride (snd (Ride_complete s r now ad ff rtg)) = next_ride s"
  "next_request (snd (Ride_complete s r now ad ff rtg)) = next_request s"
  "ride_heap (snd (Ride_complete s r now ad ff rtg)) =
     (ride_heap s)(r := (ride_heap s r)\<lparr>end_time := Some now, ride_status := ''Completed''\<rparr>)"
  by (simp_all add: Ride_complete_def update_location_def Driver_complete_ride_def
      set_availability_def add_mileage_def Passenger_complete_ride_def Let_def
      split: option.splits prod.splits sum.splits)


lemma Ride_complete_counts:
  "0 \<le> driver_total_rides (driver_heap s x) \<Longrightarrow>
   0 \<le> driver_total_rides (driver_heap (snd (Ride_complete s r now ad ff rtg)) x)"
  by (simp add: Ride_complete_def update_location_def Driver_complete_ride_def
      set_availability_def add_mileage_def Passenger_complete_ride_def Let_def
      split: option.splits prod.splits sum.splits)

lemma start_ride_raises:
  "calculate_distance M (pickup_loc (request_heap s req)) (dropoff_loc (request_heap s req))
     = Inl e \<Longrightarrow>
   start_ride M s uid now req nd = (Inl e, s)"
  by (simp add: start_ride_def)

lemma start_ride_frame:
  assumes "calculate_distance M (pickup_loc (request_heap s req))
             (dropoff_loc (request_heap s req)) = Inr dkm"
    and "estimate_fare dkm = Inr fr"
  shows "rides (snd (start_ride M s uid now req nd)) = rides s @ [next_ride s]"
    and "next_ride (snd (start_ride M s uid now req nd)) = Suc (next_ride s)"
    and "next_request (snd (start_ride M s uid now req nd)) = next_request s"
    and "pickup_loc (request_heap (snd (start_ride M s uid now req nd)) q)
           = pickup_loc (request_heap s q)"
    and "dropoff_loc (request_heap (snd (start_ride M s uid now req nd)) q)
           = dropoff_loc (request_heap s q)"
    and "ride_heap (snd (start_ride M s uid now req nd)) =
           (ride_heap s)(next_ride s :=
              \<lparr>ride_id = uid, request = req, driver = nd, start_time = now, end_time = None,
               fare = fr, estimated_distance = dkm, ride_status = ''In Progress''\<rparr>)"
    and "driver_total_rides (driver_heap (snd (start_ride M s uid now req nd)) x)
           = driver_total_rides (driver_heap s x)"
  using assms
  by (simp_all add: start_ride_def Ride_init_def Let_def set_availability_def set_status_def
      split: option.splits)

lemma estimate_fare_returns: "\<exists>fr. estimate_fare dkm = Inr fr"
  by (simp add: estimate_fare_value)


lemma well_formed_start_ride:
  assumes "well_formed s" and "nd \<noteq> None"
  shows "well_formed (snd (start_ride M s uid now req nd))"
proof (cases "calculate_distance M (pickup_loc (request_heap s req))
                (dropoff_loc (request_heap s req))")
  case (Inl e)
  with assms(1) show ?thesis by (simp add: start_ride_raises)
next
  case (Inr dkm)
  obtain fr where fr: "estimate_fare dkm = Inr fr"
    using estimate_fare_returns by blast
  from assms show ?thesis
    by (auto simp: well_formed_def start_ride_frame [OF Inr fr])
qed

lemma well_formed_assign_ride:
  assumes "well_formed s"
  shows "well_formed (snd (assign_ride M s uid now req))"
proof (cases "find_nearest_driver M s (pickup_loc (request_heap s req))")
  case (Inl e)
  with assms show ?thesis by (simp add: assign_ride_def)
next
  case (Inr res)
  obtain nd dd where res: "res = (nd, dd)" by (cases res)
  with Inr have "nd \<noteq> None" by (simp add: find_nearest_driver_Some)
  with assms have "well_formed (snd (start_ride M s uid now req nd))"
    by (rule well_formed_start_ride)
  with Inr res show ?thesis by (simp add: assign_ride_def)
qed

lemma well_formed_step:
  assumes "well_formed s"
  shows "well_formed (step M s c)"
proof (cases c)
  case (NewVehicle mk mdl plate)
  with assms show ?thesis
    by (simp add: well_formed_def Vehicle_init_def Let_def)
next
  case (NewDriver uid nm ph loc veh)
  with assms show ?thesis
    by (simp add: well_formed_def Driver_init_def Let_def)
next
  case (NewPassenger uid nm ph loc)
  with assms show ?thesis
    by (simp add: well_formed_def Passenger_init_def Let_def)
next
  case (AddDriver d)
  with assms show ?thesis
    by (simp add: well_formed_def add_driver_def)
next
  case (AddPassenger p)
  with assms show ?thesis
    by (simp add: well_formed_def add_passenger_def)
next
  case (RequestRide uid now psg pickup dropoff)
  with assms show ?thesis
    by (simp add: well_formed_def request_ride_def RideRequest_init_def Let_def)
next
  case (AssignRide uid now req)
  with assms show ?thesis
    by (simp add: well_formed_assign_ride)
next
  case (CompleteRide now ride rtg ad ff)
  with assms show ?thesis
    by (simp add: well_formed_def complete_ride_def Ride_complete_counts Ride_complete_frame)
qed

lemma well_formed_run: "well_formed s \<Longrightarrow> well_formed (run M s cs)"
  by (induction cs arbitrary: s) (simp_all add: well_formed_step)

lemma service_rides_complete:
  assumes "well_formed s0" and "r \<in> set (rides (run M s0 cs))"
  shows "fst (complete_ride (run M s0 cs) now r rtg ad ff) = Inr ()"
proof -
  from well_formed_run [OF assms(1), of M cs] assms(2)
  obtain d where d: "driver (ride_heap (run M s0 cs) r) = Some d"
    and n: "0 \<le> driver_total_rides (driver_heap (run M s0 cs) d)"
    by (auto simp: well_formed_def)
  show ?thesis
    by (simp add: complete_ride_def Ride_complete_ok [OF d n])
qed

lemma blank_state_well_formed: "well_formed blank_state"
  by (simp add: well_formed_def blank_state_def)








subsection \<open>Analytics\<close>








end
